theory Spec2Isabelle
  imports Complex_Main "HOL-Library.AList"
begin

section \<open>Frank-Wolfe weight matching: a model of \<open>frank_wolfe_matching.py\<close>\<close>

text \<open>
  Numbers are modelled as exact reals: the rounding of 32-bit floats is not part of the
  model, so the \<open>torch.allclose\<close> and \<open>torch.all(... == ...)\<close> assertions
  that compare two ways of computing the same sum always pass and are left out. A rank-2
  tensor is a list of rows; the permutation matrices and the gradients are such matrices.
  Dictionaries are association lists in insertion order, read with \<open>map_of\<close> and
  written with \<open>AList.update\<close>. Exceptions are values of \<open>error\<close>. Logging and
  progress bars have no effect on the results and are left out.
\<close>

subsection \<open>Errors\<close>

datatype error =
    ValueError string
  | AssertionError
  | KeyError string
  | IndexError
  | RuntimeError
  | UnboundLocalError string

subsection \<open>Vectors and matrices\<close>

type_synonym vec = "real list"
type_synonym mat = "real list list"

definition nrows :: "'a list list \<Rightarrow> nat" where
  "nrows M = length M"

definition ncols :: "'a list list \<Rightarrow> nat" where
  "ncols M = (case M of [] \<Rightarrow> 0 | r # _ \<Rightarrow> length r)"

text \<open>A list of rows is a tensor when all rows have the same length.\<close>

definition is_mat :: "'a list list \<Rightarrow> bool" where
  "is_mat M = list_all (\<lambda>r. length r = ncols M) M"

definition dot :: "vec \<Rightarrow> vec \<Rightarrow> real" where
  "dot u v = sum_list (map2 (*) u v)"

definition col :: "'a list list \<Rightarrow> nat \<Rightarrow> 'a list" where
  "col M j = map (\<lambda>r. r ! j) M"

text \<open>
  \<open>M.t()\<close>, \<open>M.T\<close>, \<open>M.transpose(1, 0)\<close>: the first two axes are exchanged
  (on a matrix of numbers, or of the fibres of a tensor of higher rank).
\<close>

definition mat_t :: "'a list list \<Rightarrow> 'a list list" where
  "mat_t M = map (col M) [0..<ncols M]"

text \<open>\<open>A @ B\<close>, \<open>A.mm(B)\<close> and \<open>einsum("ij,jk->ik", A, B)\<close>, for \<open>ncols A = nrows B\<close>.\<close>

definition mm :: "mat \<Rightarrow> mat \<Rightarrow> mat" where
  "mm A B = map (\<lambda>r. map (\<lambda>j. dot r (col B j)) [0..<ncols B]) A"

text \<open>\<open>torch.mv(M, v)\<close>.\<close>

definition mv :: "mat \<Rightarrow> vec \<Rightarrow> vec" where
  "mv M v = map (\<lambda>r. dot r v) M"

text \<open>\<open>torch.eye(n)\<close> and \<open>torch.diag(v)\<close>.\<close>

definition eye :: "nat \<Rightarrow> mat" where
  "eye n = map (\<lambda>i. map (\<lambda>j. if i = j then 1 else 0) [0..<n]) [0..<n]"

definition diag :: "vec \<Rightarrow> mat" where
  "diag v = map (\<lambda>i. map (\<lambda>j. if i = j then v ! i else 0) [0..<length v]) [0..<length v]"

text \<open>\<open>M.sum()\<close>, \<open>M.sum(dim=1)\<close> (row sums) and \<open>M.sum(dim=0)\<close> (column sums).\<close>

definition msum :: "mat \<Rightarrow> real" where
  "msum M = sum_list (map sum_list M)"

definition sum_dim1 :: "mat \<Rightarrow> vec" where
  "sum_dim1 M = map sum_list M"

definition sum_dim0 :: "mat \<Rightarrow> vec" where
  "sum_dim0 M = map (\<lambda>j. sum_list (col M j)) [0..<ncols M]"

subsection \<open>\<open>sinkhorn_knopp\<close>\<close>

definition eps16 :: real where
  "eps16 = 1 / 10 ^ 16"

text \<open>\<open>1 / (v + 1e-16)\<close>, elementwise.\<close>

definition recip_eps :: "vec \<Rightarrow> vec" where
  "recip_eps v = map (\<lambda>x. 1 / (x + eps16)) v"

text \<open>
  The body of the \<open>for\<close> loop up to the convergence test, on the loop's variables
  \<open>(matrix, row_scale, col_scale)\<close>.
\<close>

definition sk_pass :: "mat \<times> vec \<times> vec \<Rightarrow> mat \<times> vec \<times> vec" where
  "sk_pass s =
     (case s of (matrix, row_scale, col_scale) \<Rightarrow>
        let row_scale1 = recip_eps (mv matrix col_scale);
            matrix1 = mm (diag row_scale1) matrix;
            col_scale1 = recip_eps (mv (mat_t matrix1) row_scale1);
            matrix2 = mm matrix1 (diag col_scale1)
        in (matrix2, row_scale1, col_scale1))"

definition sk_close :: "real \<Rightarrow> mat \<Rightarrow> bool" where
  "sk_close tol matrix =
     (list_all (\<lambda>s. \<bar>s - 1\<bar> < tol) (sum_dim0 matrix) \<and>
      list_all (\<lambda>s. \<bar>s - 1\<bar> < tol) (sum_dim1 matrix))"

text \<open>\<open>for _ in range(max_iterations)\<close>: the argument counts the passes that remain.\<close>

fun sk_loop :: "nat \<Rightarrow> real \<Rightarrow> mat \<times> vec \<times> vec \<Rightarrow> mat" where
  "sk_loop 0 tol s = fst s"
| "sk_loop (Suc k) tol s =
     (let s' = sk_pass s
      in if sk_close tol (fst s') then fst s' else sk_loop k tol s')"

definition sk_normalize :: "mat \<Rightarrow> mat" where
  "sk_normalize matrix = map (map (\<lambda>x. x / (msum matrix + eps16))) matrix"

definition sk_init :: "mat \<Rightarrow> mat \<times> vec \<times> vec" where
  "sk_init matrix = (sk_normalize matrix, replicate (nrows matrix) 1, replicate (ncols matrix) 1)"

text \<open>
  The argument of \<open>sinkhorn_knopp\<close> is a tensor of floats, and its first test tells a NaN
  entry from a number: \<open>matrix >= 0\<close> is false at a NaN. So an entry of the argument is
  \<open>Some x\<close> for the number \<open>x\<close> and \<open>None\<close> for NaN; a matrix that passes the test has
  numbers only, and the rest of the function is modelled on them.
\<close>

type_synonym fmat = "real option list list"

definition ge0 :: "real option \<Rightarrow> bool" where
  "ge0 x = (case x of None \<Rightarrow> False | Some v \<Rightarrow> 0 \<le> v)"

definition all_nonneg :: "fmat \<Rightarrow> bool" where
  "all_nonneg matrix = list_all (list_all ge0) matrix"

definition numbers :: "fmat \<Rightarrow> mat" where
  "numbers matrix = map (map the) matrix"

definition sinkhorn_knopp :: "fmat \<Rightarrow> real \<Rightarrow> nat \<Rightarrow> error + mat" where
  "sinkhorn_knopp matrix tol max_iterations =
     (if \<not> all_nonneg matrix then Inl (ValueError ''Matrix contains negative values.'')
      else if nrows matrix \<noteq> ncols matrix then Inl (ValueError ''Matrix must be square.'')
      else Inr (sk_loop max_iterations tol (sk_init (numbers matrix))))"

text \<open>The call with the defaults \<open>tol=1e-10, max_iterations=1000\<close>.\<close>

definition sinkhorn_knopp_default :: "fmat \<Rightarrow> error + mat" where
  "sinkhorn_knopp_default matrix = sinkhorn_knopp matrix (1 / 10 ^ 10) 1000"

text \<open>A matrix of numbers as a tensor of floats.\<close>

definition floats :: "mat \<Rightarrow> fmat" where
  "floats M = map (map Some) M"

text \<open>
  The pass as the specification words it, for comparison with \<open>sk_pass\<close>: rows are
  rescaled by the reciprocals of the current row sums, then columns by the reciprocals of
  the current column sums.
\<close>

definition spec_rescale_pass :: "mat \<Rightarrow> mat" where
  "spec_rescale_pass M =
     (let M1 = mm (diag (map (\<lambda>s. 1 / s) (sum_dim1 M))) M
      in mm M1 (diag (map (\<lambda>s. 1 / s) (sum_dim0 M1))))"

subsection \<open>Raising and sequencing\<close>

definition thn :: "error + 'a \<Rightarrow> ('a \<Rightarrow> error + 'b) \<Rightarrow> error + 'b" where
  "thn m f = (case m of Inl e \<Rightarrow> Inl e | Inr x \<Rightarrow> f x)"

subsection \<open>Tensors\<close>

text \<open>
  A parameter tensor has rank 1 to 4 and is kept as nested lists. \<open>THigh\<close> stands for a
  tensor of rank 5 or more, which only \<open>unsqueeze\<close> of a rank-4 tensor can produce here:
  its shape is kept and every contraction of this module on it raises.

  Nested lists keep the extents of a tensor only while no axis is empty: a list of no rows
  has no record of the length of its rows, so the transpose of the three empty rows of a
  tensor of shape \<open>(3, 0)\<close> is the empty list, and a product with it as right operand has
  no columns where torch gives the zero matrix. The model is faithful on tensors all of
  whose axes have a positive extent, and the statements below on products of matrices ask
  for that.
\<close>

datatype tensor =
    T1 vec
  | T2 mat
  | T3 "mat list"
  | T4 "mat list list"
  | THigh "nat list"

definition inner :: "'a list list \<Rightarrow> 'a list" where
  "inner X = (case X of [] \<Rightarrow> [] | x # _ \<Rightarrow> x)"

fun shape :: "tensor \<Rightarrow> nat list" where
  "shape (T1 v) = [length v]"
| "shape (T2 M) = [length M, length (inner M)]"
| "shape (T3 X) = [length X, length (inner X), length (inner (inner X))]"
| "shape (T4 X) = [length X, length (inner X), length (inner (inner X)),
     length (inner (inner (inner X)))]"
| "shape (THigh s) = s"

definition tdim :: "tensor \<Rightarrow> nat" where
  "tdim x = length (shape x)"

text \<open>\<open>x.unsqueeze(1)\<close>.\<close>

fun unsqueeze1 :: "tensor \<Rightarrow> tensor" where
  "unsqueeze1 (T1 v) = T2 (map (\<lambda>a. [a]) v)"
| "unsqueeze1 (T2 M) = T3 (map (\<lambda>a. [a]) M)"
| "unsqueeze1 (T3 X) = T4 (map (\<lambda>a. [a]) X)"
| "unsqueeze1 (T4 X) = THigh (case shape (T4 X) of n # ns \<Rightarrow> n # 1 # ns | [] \<Rightarrow> [])"
| "unsqueeze1 (THigh s) = THigh (case s of n # ns \<Rightarrow> n # 1 # ns | [] \<Rightarrow> [])"

text \<open>\<open>x.transpose(1, 0)\<close>; a rank-1 tensor has no axis 1.\<close>

fun transpose10 :: "tensor \<Rightarrow> error + tensor" where
  "transpose10 (T1 v) = Inl IndexError"
| "transpose10 (T2 M) = Inr (T2 (mat_t M))"
| "transpose10 (T3 X) = Inr (T3 (mat_t X))"
| "transpose10 (T4 X) = Inr (T4 (mat_t X))"
| "transpose10 (THigh s) = Inr (THigh (case s of a # b # r \<Rightarrow> b # a # r | r \<Rightarrow> r))"

text \<open>
  The linear combination \<open>\<Sum>j. c[j] * x[j]\<close> of the slices of a tensor along its first
  axis, on ranks 1 to 4: one row of \<open>einsum("ij,j->i")\<close>, \<open>("ij,jk->ik")\<close>,
  \<open>("ij,jkl->ikl")\<close> and \<open>("ij,jklm->iklm")\<close>.
\<close>

definition lincomb2 :: "vec \<Rightarrow> mat \<Rightarrow> vec" where
  "lincomb2 c X = map (\<lambda>k. dot c (col X k)) [0..<ncols X]"

definition lincomb3 :: "vec \<Rightarrow> mat list \<Rightarrow> mat" where
  "lincomb3 c X = map (\<lambda>k. lincomb2 c (col X k)) [0..<ncols X]"

definition lincomb4 :: "vec \<Rightarrow> mat list list \<Rightarrow> mat list" where
  "lincomb4 c X = map (\<lambda>k. lincomb3 c (col X k)) [0..<ncols X]"

text \<open>
  \<open>einsum("ijk,jnk->in", A, B)\<close>, \<open>einsum("ijkm,jnkm->in", A, B)\<close> and \<open>A @ B\<close>: entry
  \<open>(i, n)\<close> sums over \<open>j\<close> the inner product \<open>ip\<close> of the fibres \<open>A[i][j]\<close> and
  \<open>B[j][n]\<close>, which is the product of numbers for matrices.
\<close>

definition einsum_in :: "('a \<Rightarrow> 'a \<Rightarrow> real) \<Rightarrow> 'a list list \<Rightarrow> 'a list list \<Rightarrow> mat" where
  "einsum_in ip A B = map (\<lambda>r. map (\<lambda>n. sum_list (map2 ip r (col B n))) [0..<ncols B]) A"

definition mdot :: "mat \<Rightarrow> mat \<Rightarrow> real" where
  "mdot X Y = sum_list (map2 dot X Y)"

text \<open>\<open>torch.trace\<close>: the sum of the diagonal of a matrix, square or not.\<close>

definition trace :: "mat \<Rightarrow> real" where
  "trace M = sum_list (map (\<lambda>i. M ! i ! i) [0..<min (nrows M) (ncols M)])"

definition zeros :: "nat \<Rightarrow> nat \<Rightarrow> mat" where
  "zeros n m = replicate n (replicate m 0)"

definition mscale :: "real \<Rightarrow> mat \<Rightarrow> mat" where
  "mscale c M = map (map ((*) c)) M"

definition madd :: "mat \<Rightarrow> mat \<Rightarrow> mat" where
  "madd A B = map2 (map2 (+)) A B"

subsection \<open>\<open>perm_rows\<close> and \<open>perm_cols\<close>\<close>

definition perm_rows :: "tensor \<Rightarrow> mat \<Rightarrow> error + tensor" where
  "perm_rows x perm =
     (if shape x ! 0 \<noteq> nrows perm then Inl AssertionError
      else if nrows perm \<noteq> ncols perm then Inl AssertionError
      else case x of
          T1 v \<Rightarrow> Inr (T1 (map (\<lambda>r. dot r v) perm))
        | T2 X \<Rightarrow> Inr (T2 (map (\<lambda>r. lincomb2 r X) perm))
        | T3 X \<Rightarrow> Inr (T3 (map (\<lambda>r. lincomb3 r X) perm))
        | T4 X \<Rightarrow> Inr (T4 (map (\<lambda>r. lincomb4 r X) perm))
        | THigh s \<Rightarrow> Inl RuntimeError)"

definition perm_cols :: "tensor \<Rightarrow> mat \<Rightarrow> error + tensor" where
  "perm_cols x perm =
     (if tdim x < 2 then Inl IndexError
      else if shape x ! 1 \<noteq> nrows perm then Inl AssertionError
      else if nrows perm \<noteq> ncols perm then Inl AssertionError
      else thn (transpose10 x) (\<lambda>xt.
           thn (perm_rows xt (mat_t perm)) (\<lambda>permuted_x.
           transpose10 permuted_x)))"

subsection \<open>Similarity of a layer and its gradients\<close>

text \<open>
  Where the two operands of a product or contraction differ in rank or in a contracted
  extent the model raises \<open>RuntimeError\<close>; torch's broadcasting of mismatched operands is
  not modelled. From \<open>weight_matching_gradient_fn_layerwise\<close> such operands do not arrive:
  \<open>compute_gradient_P_curr\<close> asserts \<open>Wa.shape == Wb.shape\<close> first.
\<close>

definition compute_layer_similarity :: "tensor \<Rightarrow> tensor \<Rightarrow> mat \<Rightarrow> mat option \<Rightarrow> error + real" where
  "compute_layer_similarity Wa Wb P_curr P_prev =
     thn (perm_rows Wb P_curr) (\<lambda>Wb_perm0.
     thn (case P_prev of None \<Rightarrow> Inr Wb_perm0 | Some Pp \<Rightarrow> perm_cols Wb_perm0 (mat_t Pp)) (\<lambda>Wb_perm.
       case (Wa, Wb_perm) of
         (T1 a, T1 b) \<Rightarrow> if length a \<noteq> length b then Inl RuntimeError else Inr (dot a b)
       | (T2 A, T2 B) \<Rightarrow>
           if nrows A \<noteq> nrows B then Inl RuntimeError else Inr (trace (mm (mat_t A) B))
       | (T3 A, T3 B) \<Rightarrow>
           if shape (T3 A) ! 0 \<noteq> shape (T3 B) ! 0 \<or> shape (T3 A) ! 2 \<noteq> shape (T3 B) ! 2
           then Inl RuntimeError else Inr (trace (einsum_in dot (mat_t A) B))
       | (T4 A, T4 B) \<Rightarrow>
           if shape (T4 A) ! 0 \<noteq> shape (T4 B) ! 0 \<or> drop 2 (shape (T4 A)) \<noteq> drop 2 (shape (T4 B))
           then Inl RuntimeError else Inr (trace (einsum_in mdot (mat_t A) B))
       | _ \<Rightarrow> Inl RuntimeError))"

definition compute_gradient_P_curr :: "tensor \<Rightarrow> tensor \<Rightarrow> mat option \<Rightarrow> error + mat" where
  "compute_gradient_P_curr Wa Wb P_prev0 =
     thn (case P_prev0 of
            None \<Rightarrow> if tdim Wb < 2 then Inl IndexError else Inr (eye (shape Wb ! 1))
          | Some P \<Rightarrow> Inr P) (\<lambda>P_prev.
     if shape Wa \<noteq> shape Wb then Inl AssertionError
     else if tdim Wb < 2 then Inl IndexError
     else if nrows P_prev \<noteq> shape Wb ! 1 then Inl AssertionError
     else thn (transpose10 Wb) (\<lambda>Wbt.
          thn (perm_rows Wbt P_prev) (\<lambda>Wb_perm.
            case (Wa, Wb_perm) of
              (T2 A, T2 B) \<Rightarrow> Inr (mm A B)
            | (T3 A, T3 B) \<Rightarrow> Inr (einsum_in dot A B)
            | (T4 A, T4 B) \<Rightarrow> Inr (einsum_in mdot A B)
            | _ \<Rightarrow> Inl RuntimeError)))"

definition compute_gradient_P_prev :: "tensor \<Rightarrow> tensor \<Rightarrow> mat \<Rightarrow> error + mat" where
  "compute_gradient_P_prev Wa Wb P_curr =
     (if nrows P_curr \<noteq> shape Wb ! 0 then Inl AssertionError
      else thn (perm_rows Wb P_curr) (\<lambda>Wb_perm.
        case (Wa, Wb_perm) of
          (T2 A, T2 B) \<Rightarrow>
            if nrows A \<noteq> nrows B then Inl RuntimeError else Inr (mm (mat_t A) B)
        | (T3 A, T3 B) \<Rightarrow>
            if shape (T3 A) ! 0 \<noteq> shape (T3 B) ! 0 \<or> shape (T3 A) ! 2 \<noteq> shape (T3 B) ! 2
            then Inl RuntimeError else Inr (einsum_in dot (mat_t A) B)
        | (T4 A, T4 B) \<Rightarrow>
            if shape (T4 A) ! 0 \<noteq> shape (T4 B) ! 0 \<or> drop 2 (shape (T4 A)) \<noteq> drop 2 (shape (T4 B))
            then Inl RuntimeError else Inr (einsum_in mdot (mat_t A) B)
        | _ \<Rightarrow> Inl RuntimeError))"

text \<open>
  To speak of the partial derivatives of the similarity with respect to the entries of the
  row permutation: the matrix with its entry \<open>(i, j)\<close> replaced by \<open>x\<close>, and the value
  of the similarity of a layer (taken as 0 where the call raises).
\<close>

definition set_entry :: "mat \<Rightarrow> nat \<Rightarrow> nat \<Rightarrow> real \<Rightarrow> mat" where
  "set_entry M i j x = M[i := (M ! i)[j := x]]"

definition similarity_value :: "tensor \<Rightarrow> tensor \<Rightarrow> mat \<Rightarrow> mat \<Rightarrow> real" where
  "similarity_value Wa Wb P_curr P_prev =
     (case compute_layer_similarity Wa Wb P_curr (Some P_prev) of Inr v \<Rightarrow> v | Inl _ \<Rightarrow> 0)"

subsection \<open>Parameters, topology and the external collaborators\<close>

type_synonym params = "(string \<times> tensor) list"
type_synonym perms = "(string \<times> mat) list"

text \<open>
  \<open>PermutationSpec\<close>: for each permutation the (parameter, axis) pairs it acts on, and for
  each parameter the permutations of its axes (\<open>None\<close> where an axis is not permuted).
\<close>

record PermutationSpec =
  perm_to_layers_and_axes :: "(string \<times> (string \<times> nat) list) list"
  layer_and_axes_to_perm :: "(string \<times> string option list) list"

text \<open>
  The collaborators that are not part of this module are parameters of the model:
  \<open>solve_linear_assignment_problem\<close> with and without \<open>return_matrix=True\<close>, scipy's
  \<open>fminbound\<close> on \<open>[0, 1]\<close>, and \<open>torch.rand(n, n)\<close>, which after \<open>seed_everything(seed)\<close> is
  a function of the seed, of the number of earlier calls and of \<open>n\<close>.
\<close>

record ext =
  lap_matrix :: "mat \<Rightarrow> mat"
  lap_indices :: "mat \<Rightarrow> nat list"
  fminbound :: "(real \<Rightarrow> real) \<Rightarrow> real"
  torch_rand :: "nat \<Rightarrow> nat \<Rightarrow> nat \<Rightarrow> mat"

subsection \<open>The objective and its gradients, layer by layer\<close>

text \<open>
  The common head of the loop bodies of \<open>get_global_obj_layerwise\<close> and
  \<open>weight_matching_gradient_fn_layerwise\<close>, which are the same lines: the two tensors of
  the layer (vectors become one-column matrices) and its row and column permutations.
\<close>

definition assert_lookup :: "(string \<times> 'v) list \<Rightarrow> string \<Rightarrow> error + 'v" where
  "assert_lookup d k = (case map_of d k of None \<Rightarrow> Inl AssertionError | Some v \<Rightarrow> Inr v)"

definition perm_or_eye :: "perms \<Rightarrow> string option \<Rightarrow> nat \<Rightarrow> error + mat" where
  "perm_or_eye perm_mats perm_id n =
     (case perm_id of None \<Rightarrow> Inr (eye n) | Some p \<Rightarrow> assert_lookup perm_mats p)"

definition layer_operands ::
  "params \<Rightarrow> params \<Rightarrow> perms \<Rightarrow> string \<times> string option list \<Rightarrow>
   error + (tensor \<times> tensor \<times> string option \<times> mat \<times> string option \<times> mat)" where
  "layer_operands params_a params_b perm_mats la =
     thn (assert_lookup params_a (fst la)) (\<lambda>Wa0.
     thn (assert_lookup params_b (fst la)) (\<lambda>Wb0.
     let axes_and_perms = snd la;
         Wa = (if tdim Wa0 = 1 then unsqueeze1 Wa0 else Wa0);
         Wb = (if tdim Wa0 = 1 then unsqueeze1 Wb0 else Wb0)
     in if axes_and_perms = [] then Inl IndexError
        else let row_perm_id = axes_and_perms ! 0
        in thn (perm_or_eye perm_mats row_perm_id (shape Wa ! 0)) (\<lambda>row_perm.
           let col_perm_id = (if length axes_and_perms > 1 then axes_and_perms ! 1 else None)
           in thn (perm_or_eye perm_mats col_perm_id (shape Wa ! 1)) (\<lambda>col_perm.
              Inr (Wa, Wb, row_perm_id, row_perm, col_perm_id, col_perm)))))"

fun obj_layers ::
  "params \<Rightarrow> params \<Rightarrow> perms \<Rightarrow> (string \<times> string option list) list \<Rightarrow> real \<Rightarrow> error + real" where
  "obj_layers params_a params_b perm_mats [] tot_obj = Inr tot_obj"
| "obj_layers params_a params_b perm_mats (la # las) tot_obj =
     thn (layer_operands params_a params_b perm_mats la) (\<lambda>(Wa, Wb, row_perm_id, row_perm, col_perm_id, col_perm).
     thn (compute_layer_similarity Wa Wb row_perm (Some col_perm)) (\<lambda>layer_similarity.
     obj_layers params_a params_b perm_mats las (tot_obj + layer_similarity)))"

definition get_global_obj_layerwise ::
  "params \<Rightarrow> params \<Rightarrow> perms \<Rightarrow> (string \<times> string option list) list \<Rightarrow> error + real" where
  "get_global_obj_layerwise params_a params_b perm_mats layers_and_axes_to_perms =
     obj_layers params_a params_b perm_mats layers_and_axes_to_perms 0"

text \<open>
  \<open>G += A\<close> on matrices: \<open>A\<close> is added entry by entry, an axis of extent 1 of \<open>A\<close> being
  repeated along the axis of \<open>G\<close>, and any other mismatch raises.
\<close>

definition iadd :: "mat \<Rightarrow> mat \<Rightarrow> error + mat" where
  "iadd G A =
     (if (nrows A = nrows G \<or> nrows A = 1) \<and> (ncols A = ncols G \<or> ncols A = 1)
      then Inr (map (\<lambda>i. map (\<lambda>j. G ! i ! j
                  + A ! (if nrows A = nrows G then i else 0) ! (if ncols A = ncols G then j else 0))
                [0..<ncols G]) [0..<nrows G])
      else Inl RuntimeError)"

text \<open>\<open>gradients[p] += A\<close>.\<close>

definition iadd_at :: "perms \<Rightarrow> string \<Rightarrow> mat \<Rightarrow> error + perms" where
  "iadd_at gradients p A =
     (case map_of gradients p of
        None \<Rightarrow> Inl (KeyError p)
      | Some G \<Rightarrow> thn (iadd G A) (\<lambda>G'. Inr (AList.update p G' gradients)))"

text \<open>\<open>if row_perm_id:\<close> holds for a name that is neither \<open>None\<close> nor the empty string.\<close>

definition truthy :: "string option \<Rightarrow> bool" where
  "truthy pid = (case pid of None \<Rightarrow> False | Some p \<Rightarrow> p \<noteq> [])"

fun zero_gradients :: "(string \<times> nat) list \<Rightarrow> string list \<Rightarrow> error + perms" where
  "zero_gradients perm_sizes [] = Inr []"
| "zero_gradients perm_sizes (p # ps) =
     (case map_of perm_sizes p of
        None \<Rightarrow> Inl (KeyError p)
      | Some n \<Rightarrow> thn (zero_gradients perm_sizes ps) (\<lambda>r. Inr ((p, zeros n n) # r)))"

fun grad_layers ::
  "params \<Rightarrow> params \<Rightarrow> perms \<Rightarrow> (string \<times> string option list) list \<Rightarrow> perms \<Rightarrow> error + perms" where
  "grad_layers params_a params_b perm_mats [] gradients = Inr gradients"
| "grad_layers params_a params_b perm_mats (la # las) gradients =
     thn (layer_operands params_a params_b perm_mats la) (\<lambda>(Wa, Wb, row_perm_id, row_perm, col_perm_id, col_perm).
     thn (compute_gradient_P_curr Wa Wb (Some col_perm)) (\<lambda>grad_P_curr.
     thn (compute_gradient_P_prev Wa Wb row_perm) (\<lambda>grad_P_prev.
     thn (if truthy row_perm_id then iadd_at gradients (the row_perm_id) grad_P_curr else Inr gradients) (\<lambda>g1.
     thn (if truthy col_perm_id then iadd_at g1 (the col_perm_id) grad_P_prev else Inr g1) (\<lambda>g2.
     grad_layers params_a params_b perm_mats las g2)))))"

definition weight_matching_gradient_fn_layerwise ::
  "params \<Rightarrow> params \<Rightarrow> perms \<Rightarrow> (string \<times> string option list) list \<Rightarrow> (string \<times> nat) list \<Rightarrow> error + perms" where
  "weight_matching_gradient_fn_layerwise params_a params_b perm_mats layers_and_axes_to_perms perm_sizes =
     thn (zero_gradients perm_sizes (map fst perm_mats)) (\<lambda>gradients.
     grad_layers params_a params_b perm_mats layers_and_axes_to_perms gradients)"

subsection \<open>Initialisation, projection, line search and update\<close>

fun init_sinkhorn :: "ext \<Rightarrow> nat \<Rightarrow> nat \<Rightarrow> (string \<times> nat) list \<Rightarrow> error + perms" where
  "init_sinkhorn E seed k [] = Inr []"
| "init_sinkhorn E seed k ((p, n) # rest) =
     thn (sinkhorn_knopp_default (floats (torch_rand E seed k n))) (\<lambda>M.
     thn (init_sinkhorn E seed (Suc k) rest) (\<lambda>r. Inr ((p, M) # r)))"

definition initialize_perm_matrices :: "ext \<Rightarrow> nat \<Rightarrow> (string \<times> nat) list \<Rightarrow> string \<Rightarrow> error + perms" where
  "initialize_perm_matrices E seed perm_sizes initialization_method =
     (if initialization_method = ''identity'' then Inr (map (\<lambda>(p, n). (p, eye n)) perm_sizes)
      else if initialization_method = ''random''
        then Inr (map (\<lambda>(k, p, n). (p, torch_rand E seed k n)) (enumerate 0 perm_sizes))
      else if initialization_method = ''sinkhorn'' then init_sinkhorn E seed 0 perm_sizes
      else Inl (ValueError (''Unknown initialization method '' @ initialization_method)))"

definition project_gradients :: "ext \<Rightarrow> perms \<Rightarrow> perms" where
  "project_gradients E gradients = map (\<lambda>(perm_name, grad). (perm_name, lap_matrix E grad)) gradients"

definition fixed_perm :: "string \<Rightarrow> bool" where
  "fixed_perm perm_name = (perm_name = ''P_final'' \<or> perm_name = ''P_4'')"

text \<open>
  \<open>(1 - t) * perm + t * proj_grad\<close>; for operands of different shapes the model raises
  (torch's broadcasting is not modelled).
\<close>

definition interp :: "real \<Rightarrow> mat \<Rightarrow> mat \<Rightarrow> error + mat" where
  "interp t perm proj_grad =
     (if nrows perm \<noteq> nrows proj_grad \<or> ncols perm \<noteq> ncols proj_grad then Inl RuntimeError
      else Inr (madd (mscale (1 - t) perm) (mscale t proj_grad)))"

fun interpolate_perms :: "real \<Rightarrow> perms \<Rightarrow> perms \<Rightarrow> error + perms" where
  "interpolate_perms t proj_grads [] = Inr []"
| "interpolate_perms t proj_grads ((perm_name, perm) # rest) =
     (case map_of proj_grads perm_name of
        None \<Rightarrow> Inl (KeyError perm_name)
      | Some proj_grad \<Rightarrow>
          thn (if fixed_perm perm_name then Inr perm else interp t perm proj_grad) (\<lambda>M.
          thn (interpolate_perms t proj_grads rest) (\<lambda>r. Inr ((perm_name, M) # r))))"

definition line_search_step ::
  "real \<Rightarrow> params \<Rightarrow> params \<Rightarrow> perms \<Rightarrow> perms \<Rightarrow> (string \<times> string option list) list \<Rightarrow> error + real" where
  "line_search_step t params_a params_b proj_grads perm_mats layers_and_axes_to_perms =
     thn (interpolate_perms t proj_grads perm_mats) (\<lambda>interpolated_perms.
     thn (get_global_obj_layerwise params_a params_b interpolated_perms layers_and_axes_to_perms) (\<lambda>tot_obj.
     Inr (- tot_obj)))"

fun update_perm_matrices :: "perms \<Rightarrow> perms \<Rightarrow> real \<Rightarrow> error + perms" where
  "update_perm_matrices [] proj_grads step_size = Inr []"
| "update_perm_matrices ((perm_name, perm) # rest) proj_grads step_size =
     thn (if fixed_perm perm_name then Inr perm
          else case map_of proj_grads perm_name of
                 None \<Rightarrow> Inl (KeyError perm_name)
               | Some proj_grad \<Rightarrow> interp step_size perm proj_grad) (\<lambda>M.
     thn (update_perm_matrices rest proj_grads step_size) (\<lambda>r. Inr ((perm_name, M) # r)))"

subsection \<open>\<open>frank_wolfe_weight_matching_trial\<close>\<close>

text \<open>The variables of the trial that the loop changes; \<open>new_obj\<close> is unbound before the first pass.\<close>

record fw_state =
  perm_matrices :: perms
  perm_matrices_history :: "perms list"
  old_obj :: real
  patience_steps :: nat
  new_obj :: "real option"

text \<open>
  The body of the loop up to the patience test. \<open>fminbound\<close> evaluates \<open>line_search_step\<close>
  at points of its choice; whether that call raises depends on keys and shapes only, not on
  \<open>t\<close>, so the model raises what the call at \<open>t = 0\<close> raises and otherwise hands
  \<open>fminbound\<close> the values.
\<close>

definition fw_body ::
  "ext \<Rightarrow> params \<Rightarrow> params \<Rightarrow> (string \<times> nat) list \<Rightarrow> (string \<times> string option list) list \<Rightarrow>
   fw_state \<Rightarrow> error + fw_state" where
  "fw_body E params_a params_b perm_sizes layers s =
     thn (weight_matching_gradient_fn_layerwise params_a params_b (perm_matrices s) layers perm_sizes) (\<lambda>gradients.
     let proj_grads = project_gradients E gradients
     in thn (line_search_step 0 params_a params_b proj_grads (perm_matrices s) layers) (\<lambda>_.
     let step_size = fminbound E (\<lambda>t.
           case line_search_step t params_a params_b proj_grads (perm_matrices s) layers of
             Inr v \<Rightarrow> v | Inl _ \<Rightarrow> 0)
     in thn (update_perm_matrices (perm_matrices s) proj_grads step_size) (\<lambda>pm.
     thn (get_global_obj_layerwise params_a params_b pm layers) (\<lambda>obj.
     Inr (if obj - old_obj s < 1 / 10 ^ 6
          then s\<lparr>perm_matrices := pm, patience_steps := patience_steps s + 1, new_obj := Some obj\<rparr>
          else s\<lparr>perm_matrices := pm, patience_steps := 0, old_obj := obj, new_obj := Some obj\<rparr>)))))"

text \<open>\<open>for iteration in range(max_iter)\<close>: the first argument counts the passes that remain.\<close>

fun fw_loop ::
  "nat \<Rightarrow> ext \<Rightarrow> params \<Rightarrow> params \<Rightarrow> (string \<times> nat) list \<Rightarrow> (string \<times> string option list) list \<Rightarrow>
   fw_state \<Rightarrow> error + fw_state" where
  "fw_loop 0 E params_a params_b perm_sizes layers s = Inr s"
| "fw_loop (Suc k) E params_a params_b perm_sizes layers s =
     thn (fw_body E params_a params_b perm_sizes layers s) (\<lambda>s'.
     if patience_steps s' \<ge> 15 then Inr s'
     else fw_loop k E params_a params_b perm_sizes layers
            (s'\<lparr>perm_matrices_history := perm_matrices_history s' @ [perm_matrices s']\<rparr>))"

text \<open>
  The loop without its early exit, to say where the loop stops: a pass is the body followed
  by the recording of the matrices, and \<open>fw_passes j\<close> runs \<open>j\<close> passes.
\<close>

definition fw_pass ::
  "ext \<Rightarrow> params \<Rightarrow> params \<Rightarrow> (string \<times> nat) list \<Rightarrow> (string \<times> string option list) list \<Rightarrow>
   fw_state \<Rightarrow> error + fw_state" where
  "fw_pass E params_a params_b perm_sizes layers s =
     thn (fw_body E params_a params_b perm_sizes layers s) (\<lambda>s'.
     Inr (s'\<lparr>perm_matrices_history := perm_matrices_history s' @ [perm_matrices s']\<rparr>))"

fun fw_passes ::
  "nat \<Rightarrow> ext \<Rightarrow> params \<Rightarrow> params \<Rightarrow> (string \<times> nat) list \<Rightarrow> (string \<times> string option list) list \<Rightarrow>
   fw_state \<Rightarrow> error + fw_state" where
  "fw_passes 0 E params_a params_b perm_sizes layers s = Inr s"
| "fw_passes (Suc j) E params_a params_b perm_sizes layers s =
     thn (fw_pass E params_a params_b perm_sizes layers s)
       (fw_passes j E params_a params_b perm_sizes layers)"

definition fw_init :: "perms \<Rightarrow> fw_state" where
  "fw_init pm = \<lparr>perm_matrices = pm, perm_matrices_history = [pm], old_obj = 0,
     patience_steps = 0, new_obj = None\<rparr>"

text \<open>The seed stands for the state of the random generators, set by the caller.\<close>

definition frank_wolfe_weight_matching_trial ::
  "ext \<Rightarrow> nat \<Rightarrow> params \<Rightarrow> params \<Rightarrow> (string \<times> nat) list \<Rightarrow> string \<Rightarrow> PermutationSpec \<Rightarrow> nat \<Rightarrow>
   error + (perms \<times> perms list \<times> real)" where
  "frank_wolfe_weight_matching_trial E seed params_a params_b perm_sizes initialization_method perm_spec max_iter =
     thn (initialize_perm_matrices E seed perm_sizes initialization_method) (\<lambda>pm0.
     thn (fw_loop max_iter E params_a params_b perm_sizes (layer_and_axes_to_perm perm_spec) (fw_init pm0)) (\<lambda>s.
     case new_obj s of
       None \<Rightarrow> Inl (UnboundLocalError ''new_obj'')
     | Some obj \<Rightarrow> Inr (perm_matrices s, perm_matrices_history s, obj)))"

subsection \<open>\<open>frank_wolfe_weight_matching\<close>\<close>

fun compute_perm_sizes ::
  "params \<Rightarrow> (string \<times> (string \<times> nat) list) list \<Rightarrow> error + (string \<times> nat) list" where
  "compute_perm_sizes params_a [] = Inr []"
| "compute_perm_sizes params_a ((perm_name, params_and_axes) # rest) =
     (if params_and_axes = [] then Inl IndexError
      else let relevant_params = fst (params_and_axes ! 0); relevant_axis = snd (params_and_axes ! 0)
      in case map_of params_a relevant_params of
           None \<Rightarrow> Inl (KeyError relevant_params)
         | Some W \<Rightarrow>
             if relevant_axis \<ge> tdim W then Inl IndexError
             else thn (compute_perm_sizes params_a rest) (\<lambda>r.
                  Inr ((perm_name, shape W ! relevant_axis) # r)))"

text \<open>
  The loop over the seeds, on \<open>best_obj\<close> and on \<open>best_perm_matrices\<close> with
  \<open>best_perm_matrices_history\<close>, which are unbound (\<open>None\<close>) until a trial is kept.
\<close>

fun run_trials ::
  "ext \<Rightarrow> params \<Rightarrow> params \<Rightarrow> (string \<times> nat) list \<Rightarrow> string \<Rightarrow> PermutationSpec \<Rightarrow> nat \<Rightarrow>
   nat list \<Rightarrow> real \<times> (perms \<times> perms list) option \<Rightarrow> error + real \<times> (perms \<times> perms list) option" where
  "run_trials E params_a params_b perm_sizes initialization_method ps max_iter [] best = Inr best"
| "run_trials E params_a params_b perm_sizes initialization_method ps max_iter (seed # seeds) best =
     thn (frank_wolfe_weight_matching_trial E seed params_a params_b perm_sizes initialization_method ps max_iter)
       (\<lambda>(pm, history, trial_obj).
          run_trials E params_a params_b perm_sizes initialization_method ps max_iter seeds
            (if trial_obj > fst best then (trial_obj, Some (pm, history)) else best))"

text \<open>
  \<open>seeds\<close> is the array drawn by \<open>np.random.randint(0, 1000, num_trials)\<close>. The function
  assigns to \<open>ps.perm_to_layers_and_axes\<close> first, so the model returns the topology as the
  call leaves it next to the result or the exception. The result is the hardened
  permutations, with the history of the kept trial when \<open>return_perm_history\<close> is set.
\<close>

definition frank_wolfe_weight_matching ::
  "ext \<Rightarrow> nat list \<Rightarrow> PermutationSpec \<Rightarrow> params \<Rightarrow> params \<Rightarrow> string \<Rightarrow> nat \<Rightarrow> bool \<Rightarrow>
   (error + (string \<times> nat list) list \<times> perms list option) \<times> PermutationSpec" where
  "frank_wolfe_weight_matching E seeds ps fixed permutee initialization_method max_iter return_perm_history =
     (let ps' = ps\<lparr>perm_to_layers_and_axes :=
                  AList.update ''P_final'' [(''linear.weight'', 0)] (perm_to_layers_and_axes ps)\<rparr>
      in (thn (compute_perm_sizes fixed (perm_to_layers_and_axes ps')) (\<lambda>perm_sizes.
          thn (run_trials E fixed permutee perm_sizes initialization_method ps' max_iter seeds (0, None)) (\<lambda>best.
          case snd best of
            None \<Rightarrow> Inl (UnboundLocalError ''best_perm_matrices'')
          | Some (best_perm_matrices, best_perm_matrices_history) \<Rightarrow>
              Inr (map (\<lambda>(p, perm). (p, lap_indices E perm)) best_perm_matrices,
                   if return_perm_history then Some best_perm_matrices_history else None))),
          ps'))"

subsection \<open>Collaborators and inputs for the concrete runs\<close>

text \<open>
  An assignment solver that is exact on matrices up to \<open>2 \<times> 2\<close> (and the identity above),
  a line search that compares the two ends of the interval and returns a point next to the
  better one, and a generator with entries in \<open>[0, 1)\<close>.
\<close>

definition example_lap :: "mat \<Rightarrow> mat" where
  "example_lap G = (if length G = 2 \<and> G ! 0 ! 0 + G ! 1 ! 1 < G ! 0 ! 1 + G ! 1 ! 0
     then [[0, 1], [1, 0]] else eye (length G))"

definition example_lap_indices :: "mat \<Rightarrow> nat list" where
  "example_lap_indices G = (if length G = 2 \<and> G ! 0 ! 0 + G ! 1 ! 1 < G ! 0 ! 1 + G ! 1 ! 0
     then [1, 0] else [0..<length G])"

definition example_rand :: "nat \<Rightarrow> nat \<Rightarrow> nat \<Rightarrow> mat" where
  "example_rand seed k n =
     map (\<lambda>i. map (\<lambda>j. real ((seed + k + 2 * i + j) mod 4) / 4) [0..<n]) [0..<n]"

definition example_ext :: ext where
  "example_ext = \<lparr>lap_matrix = example_lap, lap_indices = example_lap_indices,
     fminbound = (\<lambda>f. if f 1 < f 0 then 99999 / 100000 else 1 / 100000),
     torch_rand = example_rand\<rparr>"

text \<open>A network whose only permuted parameter is the output layer.\<close>

definition output_only_spec :: PermutationSpec where
  "output_only_spec = \<lparr>perm_to_layers_and_axes = [],
     layer_and_axes_to_perm = [(''linear.weight'', [Some ''P_final'', None])]\<rparr>"

definition output_only_spec_again :: PermutationSpec where
  "output_only_spec_again = \<lparr>perm_to_layers_and_axes = [(''P_final'', [(''linear.weight'', 0)])],
     layer_and_axes_to_perm = [(''linear.weight'', [Some ''P_final'', None])]\<rparr>"

text \<open>A network with one hidden permutation, acting on the rows of \<open>w\<close>.\<close>

definition hidden_only_spec :: PermutationSpec where
  "hidden_only_spec = \<lparr>perm_to_layers_and_axes = [(''P_0'', [(''w'', 0)])],
     layer_and_axes_to_perm = [(''w'', [Some ''P_0'', None])]\<rparr>"

section \<open>Properties\<close>

subsection \<open>Basic facts\<close>

lemma thn_Inr [simp]: "thn (Inr x) f = f x"
  by (simp add: thn_def)

lemma thn_Inl [simp]: "thn (Inl e) f = Inl e"
  by (simp add: thn_def)

lemma thn_eq_Inr: "thn m f = Inr y \<longleftrightarrow> (\<exists>x. m = Inr x \<and> f x = Inr y)"
  by (cases m) simp_all

lemma thn_eq_Inl: "thn m f = Inl e \<longleftrightarrow> m = Inl e \<or> (\<exists>x. m = Inr x \<and> f x = Inl e)"
  by (cases m) simp_all

lemma length_inner: "length (inner M) = ncols M"
  by (simp add: inner_def ncols_def split: list.splits)

lemma length_mat_t: "length (mat_t M) = ncols M"
  by (simp add: mat_t_def)

lemma perm_rows_T2:
  "length X = nrows perm \<Longrightarrow> nrows perm = ncols perm \<Longrightarrow> perm_rows (T2 X) perm = Inr (T2 (mm perm X))"
  by (simp add: perm_rows_def mm_def lincomb2_def)

lemmas mat_eval = mm_def mat_t_def col_def dot_def nrows_def ncols_def upt_conv_Cons

lemmas fw_eval =
  frank_wolfe_weight_matching_def frank_wolfe_weight_matching_trial_def fw_body_def fw_init_def
  initialize_perm_matrices_def project_gradients_def fixed_perm_def interp_def line_search_step_def
  weight_matching_gradient_fn_layerwise_def get_global_obj_layerwise_def layer_operands_def
  assert_lookup_def perm_or_eye_def iadd_at_def iadd_def truthy_def
  compute_gradient_P_curr_def compute_gradient_P_prev_def compute_layer_similarity_def
  perm_rows_def perm_cols_def lincomb2_def tdim_def inner_def trace_def zeros_def mscale_def madd_def
  mm_def mat_t_def col_def dot_def nrows_def ncols_def eye_def upt_conv_Cons Let_def
  example_ext_def example_lap_def example_lap_indices_def example_rand_def

subsection \<open>The gradient with respect to the row permutation\<close>

lemma is_mat_nth: "is_mat M \<Longrightarrow> i < length M \<Longrightarrow> length (M ! i) = ncols M"
  by (simp add: is_mat_def list_all_length)

lemma sum_list_upt: "sum_list (map f [0..<n]) = (\<Sum>i<n. f i)"
  by (simp add: interv_sum_list_conv_sum_set_nat atLeast0LessThan)

lemma dot_sum: "length u = length v \<Longrightarrow> dot u v = (\<Sum>k<length u. u ! k * v ! k)"
proof -
  assume l: "length u = length v"
  have "map2 (*) u v = map (\<lambda>k. u ! k * v ! k) [0..<length u]"
    using l by (intro nth_equalityI) simp_all
  then show ?thesis by (simp add: dot_def sum_list_upt)
qed

lemma length_col: "length (col M j) = length M"
  by (simp add: col_def)

lemma col_nth: "i < length M \<Longrightarrow> col M j ! i = M ! i ! j"
  by (simp add: col_def)

lemma length_mm: "length (mm A B) = length A"
  by (simp add: mm_def)

lemma length_mm_nth: "i < length A \<Longrightarrow> length (mm A B ! i) = ncols B"
  by (simp add: mm_def)

lemma mm_nth: "i < length A \<Longrightarrow> j < ncols B \<Longrightarrow> mm A B ! i ! j = dot (A ! i) (col B j)"
  by (simp add: mm_def)

lemma ncols_mm: "A \<noteq> [] \<Longrightarrow> ncols (mm A B) = ncols B"
  by (cases A) (simp_all add: mm_def ncols_def)

lemma is_mat_mm: "is_mat (mm A B)"
  by (cases A) (simp_all add: is_mat_def mm_def ncols_def list_all_iff)

lemma mat_t_nth: "j < ncols M \<Longrightarrow> mat_t M ! j = col M j"
  by (simp add: mat_t_def)

lemma ncols_mat_t: "0 < ncols M \<Longrightarrow> ncols (mat_t M) = length M"
  by (simp add: mat_t_def ncols_def col_def upt_conv_Cons split: list.splits)

lemma is_mat_mat_t: "is_mat (mat_t M)"
proof (cases "ncols M")
  case 0
  then show ?thesis by (simp add: is_mat_def mat_t_def)
next
  case (Suc n)
  then have e: "ncols (mat_t M) = length M" by (simp add: ncols_mat_t)
  show ?thesis unfolding is_mat_def e by (simp add: mat_t_def list_all_iff length_col)
qed

lemma ncols_pos_nonempty: "0 < ncols M \<Longrightarrow> M \<noteq> []"
  by (auto simp: ncols_def)

lemma mat_t_mat_t: "is_mat M \<Longrightarrow> 0 < ncols M \<Longrightarrow> mat_t (mat_t M) = M"
proof (rule nth_equalityI)
  assume m: "is_mat M" and c: "0 < ncols M"
  show "length (mat_t (mat_t M)) = length M"
    using c by (simp add: length_mat_t ncols_mat_t)
  fix i assume "i < length (mat_t (mat_t M))"
  then have i: "i < length M" using c by (simp add: length_mat_t ncols_mat_t)
  then have i': "i < ncols (mat_t M)" using c by (simp add: ncols_mat_t)
  show "mat_t (mat_t M) ! i = M ! i"
  proof (rule nth_equalityI)
    show "length (mat_t (mat_t M) ! i) = length (M ! i)"
      using i i' m by (simp add: mat_t_nth length_col length_mat_t is_mat_nth)
    fix j assume "j < length (mat_t (mat_t M) ! i)"
    then have j: "j < ncols M" using i' by (simp add: mat_t_nth length_col length_mat_t)
    show "mat_t (mat_t M) ! i ! j = M ! i ! j"
      using i i' j by (simp add: mat_t_nth col_nth length_mat_t)
  qed
qed

lemma four_sum:
  fixes A Q P B :: "nat \<Rightarrow> nat \<Rightarrow> real"
  shows "(\<Sum>k<c. \<Sum>i<r. A i k * (\<Sum>l<c. Q k l * (\<Sum>j<r. P i j * B j l)))
       = (\<Sum>i<r. \<Sum>j<r. P i j * (\<Sum>k<c. A i k * (\<Sum>l<c. Q k l * B j l)))"
proof -
  have "(\<Sum>k<c. \<Sum>i<r. A i k * (\<Sum>l<c. Q k l * (\<Sum>j<r. P i j * B j l)))
      = (\<Sum>k<c. \<Sum>i<r. \<Sum>l<c. \<Sum>j<r. A i k * Q k l * P i j * B j l)"
    by (simp add: sum_distrib_left mult.assoc)
  also have "\<dots> = (\<Sum>i<r. \<Sum>k<c. \<Sum>l<c. \<Sum>j<r. A i k * Q k l * P i j * B j l)"
    by (rule sum.swap)
  also have "\<dots> = (\<Sum>i<r. \<Sum>k<c. \<Sum>j<r. \<Sum>l<c. A i k * Q k l * P i j * B j l)"
    by (intro sum.cong refl sum.swap)
  also have "\<dots> = (\<Sum>i<r. \<Sum>j<r. \<Sum>k<c. \<Sum>l<c. A i k * Q k l * P i j * B j l)"
    by (intro sum.cong refl sum.swap)
  also have "\<dots> = (\<Sum>i<r. \<Sum>j<r. P i j * (\<Sum>k<c. A i k * (\<Sum>l<c. Q k l * B j l)))"
    by (simp add: sum_distrib_left mult_ac)
  finally show ?thesis .
qed

lemma trace_sum: "trace M = (\<Sum>k<min (nrows M) (ncols M). M ! k ! k)"
  by (simp add: trace_def sum_list_upt)

lemma mdot_sum: "length P = length G \<Longrightarrow> mdot P G = (\<Sum>i<length P. dot (P ! i) (G ! i))"
proof -
  assume l: "length P = length G"
  have "map2 dot P G = map (\<lambda>i. dot (P ! i) (G ! i)) [0..<length P]"
    using l by (intro nth_equalityI) simp_all
  then show ?thesis by (simp add: mdot_def sum_list_upt)
qed

lemma mm_entry:
  assumes "i < length A" "j < ncols B" "length (A ! i) = length B"
  shows "mm A B ! i ! j = (\<Sum>k<length B. A ! i ! k * B ! k ! j)"
proof -
  have "mm A B ! i ! j = dot (A ! i) (col B j)" using assms by (simp add: mm_nth)
  also have "\<dots> = (\<Sum>k<length (A ! i). A ! i ! k * col B j ! k)"
    using assms by (intro dot_sum) (simp add: length_col)
  also have "\<dots> = (\<Sum>k<length B. A ! i ! k * B ! k ! j)"
    using assms by (intro sum.cong) (simp_all add: col_nth)
  finally show ?thesis .
qed

lemma mat_t_entry: "j < ncols M \<Longrightarrow> i < length M \<Longrightarrow> mat_t M ! j ! i = M ! i ! j"
  by (simp add: mat_t_nth col_nth)

lemma perm_cols_T2:
  assumes X: "is_mat X" "0 < ncols X" and q: "is_mat q" "nrows q = ncols X" "ncols q = nrows q"
  shows "perm_cols (T2 X) (mat_t q) = Inr (T2 (mat_t (mm q (mat_t X))))"
proof -
  have qpos: "0 < ncols q" using q X by simp
  have tt: "mat_t (mat_t q) = q" using q(1) qpos by (rule mat_t_mat_t)
  have a: "shape (T2 X) ! 1 = nrows (mat_t q)"
    using q by (simp add: length_inner nrows_def length_mat_t)
  have b: "nrows (mat_t q) = ncols (mat_t q)"
    using q qpos by (simp add: nrows_def length_mat_t ncols_mat_t)
  have c: "perm_rows (T2 (mat_t X)) q = Inr (T2 (mm q (mat_t X)))"
    using q by (intro perm_rows_T2) (simp_all add: length_mat_t)
  show ?thesis
    using a b c by (simp add: perm_cols_def tdim_def tt)
qed

lemma similarity_rank2_trace:
  assumes Wa: "is_mat Wa" and Wb: "is_mat Wb"
    and rows: "nrows Wa = nrows Wb" and cols: "ncols Wa = ncols Wb" and pos: "0 < ncols Wb"
    and q: "is_mat q" "nrows q = ncols Wb" "ncols q = nrows q"
    and P: "is_mat P" "nrows P = nrows Wb" "ncols P = nrows P"
  shows "compute_layer_similarity (T2 Wa) (T2 Wb) P (Some q)
     = Inr (trace (mm (mat_t Wa) (mat_t (mm q (mat_t (mm P Wb))))))"
proof -
  have ne: "Wb \<noteq> []" "P \<noteq> []" "q \<noteq> []"
    using pos P q by (auto simp: ncols_def nrows_def)
  have pr: "perm_rows (T2 Wb) P = Inr (T2 (mm P Wb))"
    using P by (intro perm_rows_T2) (simp_all add: nrows_def)
  have X: "is_mat (mm P Wb)" "ncols (mm P Wb) = ncols Wb"
    using ne by (simp_all add: is_mat_mm ncols_mm)
  have pc: "perm_cols (T2 (mm P Wb)) (mat_t q) = Inr (T2 (mat_t (mm q (mat_t (mm P Wb)))))"
    using X pos q by (intro perm_cols_T2) simp_all
  have "ncols (mm q (mat_t (mm P Wb))) = ncols (mat_t (mm P Wb))"
    using ne by (simp add: ncols_mm)
  also have "\<dots> = length (mm P Wb)" using X pos by (simp add: ncols_mat_t)
  finally have len: "nrows (mat_t (mm q (mat_t (mm P Wb)))) = nrows Wa"
    using P rows by (simp add: nrows_def length_mat_t length_mm)
  show ?thesis
    using pr pc len by (simp add: compute_layer_similarity_def)
qed

lemma similarity_rank2_sum:
  assumes Wa: "is_mat Wa" and Wb: "is_mat Wb"
    and rows: "nrows Wa = nrows Wb" and cols: "ncols Wa = ncols Wb" and pos: "0 < ncols Wb"
    and q: "is_mat q" "nrows q = ncols Wb" "ncols q = nrows q"
    and P: "is_mat P" "nrows P = nrows Wb" "ncols P = nrows P"
  shows "trace (mm (mat_t Wa) (mat_t (mm q (mat_t (mm P Wb)))))
     = mdot P (mm Wa (mm q (mat_t Wb)))"
proof -
  define r where "r = length Wb"
  define c where "c = ncols Wb"
  have ne: "Wb \<noteq> []" "P \<noteq> []" "q \<noteq> []" "Wa \<noteq> []"
    using pos P q rows by (auto simp: ncols_def nrows_def)
  have lens: "length Wa = r" "length P = r" "length q = c" "ncols Wa = c" "ncols P = r" "ncols q = c"
    using rows cols q P by (simp_all add: r_def c_def nrows_def)
  have rpos: "0 < r" "0 < c" using ne pos by (simp_all add: r_def c_def)
  have rowlen: "\<And>i. i < r \<Longrightarrow> length (Wa ! i) = c" "\<And>i. i < r \<Longrightarrow> length (Wb ! i) = c"
    "\<And>i. i < r \<Longrightarrow> length (P ! i) = r" "\<And>k. k < c \<Longrightarrow> length (q ! k) = c"
    using Wa Wb P(1) q(1) lens by (simp_all add: is_mat_nth r_def c_def)
  let ?X = "mm P Wb"
  let ?XT = "mat_t ?X"
  let ?Z = "mm q ?XT"
  let ?Y = "mat_t ?Z"
  let ?WT = "mat_t Wa"
  let ?T = "mm ?WT ?Y"
  let ?H = "mm q (mat_t Wb)"
  let ?G = "mm Wa ?H"
  have X: "length ?X = r" "ncols ?X = c" using ne lens by (simp_all add: length_mm ncols_mm c_def)
  have Xe: "?X ! i ! l = (\<Sum>j<r. P ! i ! j * Wb ! j ! l)" if "i < r" "l < c" for i l
    using that lens rowlen mm_entry [of i P l Wb] by (simp add: r_def c_def)
  have XT: "length ?XT = c" "ncols ?XT = r" using X rpos by (simp_all add: length_mat_t ncols_mat_t)
  have XTe: "?XT ! l ! i = ?X ! i ! l" if "i < r" "l < c" for i l
    using that X by (simp add: mat_t_entry)
  have XTrow: "length (?XT ! l) = r" if "l < c" for l
    using that X by (simp add: mat_t_nth length_col)
  have Z: "length ?Z = c" "ncols ?Z = r" using ne lens XT by (simp_all add: length_mm ncols_mm)
  have Ze: "?Z ! k ! i = (\<Sum>l<c. q ! k ! l * ?X ! i ! l)" if "k < c" "i < r" for k i
  proof -
    have "?Z ! k ! i = (\<Sum>l<length ?XT. q ! k ! l * ?XT ! l ! i)"
      using that lens rowlen XT by (intro mm_entry) simp_all
    also have "\<dots> = (\<Sum>l<c. q ! k ! l * ?X ! i ! l)"
      using that XT by (intro sum.cong) (simp_all add: XTe)
    finally show ?thesis .
  qed
  have Y: "length ?Y = r" "ncols ?Y = c" using Z rpos by (simp_all add: length_mat_t ncols_mat_t)
  have Ye: "?Y ! i ! k = ?Z ! k ! i" if "k < c" "i < r" for k i
    using that Z by (simp add: mat_t_entry)
  have WT: "length ?WT = c" "ncols ?WT = r" using lens rpos by (simp_all add: length_mat_t ncols_mat_t)
  have WTe: "?WT ! k ! i = Wa ! i ! k" if "k < c" "i < r" for k i
    using that lens by (simp add: mat_t_entry)
  have WTrow: "length (?WT ! k) = r" if "k < c" for k
    using that lens by (simp add: mat_t_nth length_col)
  have T: "nrows ?T = c" "ncols ?T = c"
    using WT Y rpos by (auto simp: nrows_def length_mm ncols_mm)
  have Te: "?T ! k ! k = (\<Sum>i<r. Wa ! i ! k * ?Z ! k ! i)" if "k < c" for k
  proof -
    have "?T ! k ! k = (\<Sum>i<length ?Y. ?WT ! k ! i * ?Y ! i ! k)"
      using that WT Y WTrow by (intro mm_entry) simp_all
    also have "\<dots> = (\<Sum>i<r. Wa ! i ! k * ?Z ! k ! i)"
      using that Y by (intro sum.cong) (simp_all add: WTe Ye)
    finally show ?thesis .
  qed
  have lhs: "trace ?T = (\<Sum>k<c. \<Sum>i<r. Wa ! i ! k * (\<Sum>l<c. q ! k ! l * (\<Sum>j<r. P ! i ! j * Wb ! j ! l)))"
    unfolding trace_sum T by (simp add: Te Ze Xe)
  have WbT: "length (mat_t Wb) = c" "ncols (mat_t Wb) = r"
    using pos by (simp_all add: length_mat_t ncols_mat_t c_def r_def)
  have H: "length ?H = c" "ncols ?H = r" using ne lens WbT by (simp_all add: length_mm ncols_mm)
  have He: "?H ! k ! j = (\<Sum>l<c. q ! k ! l * Wb ! j ! l)" if "k < c" "j < r" for k j
  proof -
    have "?H ! k ! j = (\<Sum>l<length (mat_t Wb). q ! k ! l * mat_t Wb ! l ! j)"
      using that lens rowlen WbT by (intro mm_entry) simp_all
    also have "\<dots> = (\<Sum>l<c. q ! k ! l * Wb ! j ! l)"
      using that WbT by (intro sum.cong) (simp_all add: mat_t_entry c_def r_def)
    finally show ?thesis .
  qed
  have G: "length ?G = r" using lens by (simp add: length_mm)
  have Grow: "length (?G ! i) = r" if "i < r" for i
    using that lens H by (simp add: length_mm_nth)
  have Ge: "?G ! i ! j = (\<Sum>k<c. Wa ! i ! k * (\<Sum>l<c. q ! k ! l * Wb ! j ! l))" if "i < r" "j < r" for i j
  proof -
    have "?G ! i ! j = (\<Sum>k<length ?H. Wa ! i ! k * ?H ! k ! j)"
      using that lens rowlen H by (intro mm_entry) simp_all
    also have "\<dots> = (\<Sum>k<c. Wa ! i ! k * (\<Sum>l<c. q ! k ! l * Wb ! j ! l))"
      using that H by (intro sum.cong) (simp_all add: He)
    finally show ?thesis .
  qed
  have "mdot P ?G = (\<Sum>i<length P. dot (P ! i) (?G ! i))"
    using lens G by (intro mdot_sum) simp
  also have "\<dots> = (\<Sum>i<r. \<Sum>j<r. P ! i ! j * ?G ! i ! j)"
  proof (intro sum.cong)
    show "{..<length P} = {..<r}" using lens by simp
    fix i assume "i \<in> {..<r}"
    then have i: "i < r" by simp
    have "dot (P ! i) (?G ! i) = (\<Sum>j<length (P ! i). P ! i ! j * ?G ! i ! j)"
      using i rowlen Grow by (intro dot_sum) simp
    then show "dot (P ! i) (?G ! i) = (\<Sum>j<r. P ! i ! j * ?G ! i ! j)"
      using i rowlen by simp
  qed
  also have "\<dots> = (\<Sum>i<r. \<Sum>j<r. P ! i ! j * (\<Sum>k<c. Wa ! i ! k * (\<Sum>l<c. q ! k ! l * Wb ! j ! l)))"
    by (simp add: Ge)
  finally have rhs: "mdot P ?G
      = (\<Sum>i<r. \<Sum>j<r. P ! i ! j * (\<Sum>k<c. Wa ! i ! k * (\<Sum>l<c. q ! k ! l * Wb ! j ! l)))" .
  show ?thesis
    unfolding lhs rhs
    by (rule four_sum)
qed

lemma dot_update:
  assumes "j < length u" "length u = length v"
  shows "dot (u[j := x]) v = dot u v + (x - u ! j) * v ! j"
proof -
  have "dot (u[j := x]) v = (\<Sum>k<length u. u[j := x] ! k * v ! k)"
    using assms dot_sum [of "u[j := x]" v] by simp
  also have "\<dots> = (\<Sum>k<length u. u ! k * v ! k + (if k = j then (x - u ! j) * v ! j else 0))"
    by (intro sum.cong refl) (simp add: nth_list_update algebra_simps)
  also have "\<dots> = (\<Sum>k<length u. u ! k * v ! k) + (x - u ! j) * v ! j"
    using assms by (simp add: sum.distrib)
  finally show ?thesis using assms by (simp add: dot_sum)
qed

lemma mdot_set_entry:
  assumes "i < length P" "j < length (P ! i)" "length G = length P" "length (G ! i) = length (P ! i)"
  shows "mdot (set_entry P i j x) G = mdot P G + (x - P ! i ! j) * G ! i ! j"
proof -
  have "mdot (set_entry P i j x) G = (\<Sum>k<length P. dot (set_entry P i j x ! k) (G ! k))"
    using assms mdot_sum [of "set_entry P i j x" G] by (simp add: set_entry_def)
  also have "\<dots> = (\<Sum>k<length P. dot (P ! k) (G ! k) + (if k = i then (x - P ! i ! j) * G ! i ! j else 0))"
    using assms by (intro sum.cong refl) (simp add: set_entry_def nth_list_update dot_update)
  also have "\<dots> = (\<Sum>k<length P. dot (P ! k) (G ! k)) + (x - P ! i ! j) * G ! i ! j"
    using assms by (simp add: sum.distrib)
  finally show ?thesis using assms by (simp add: mdot_sum)
qed

lemma set_entry_shape:
  assumes "is_mat P"
  shows "is_mat (set_entry P i j x)" "nrows (set_entry P i j x) = nrows P"
    "ncols (set_entry P i j x) = ncols P"
proof -
  show n: "nrows (set_entry P i j x) = nrows P" by (simp add: set_entry_def nrows_def)
  show c: "ncols (set_entry P i j x) = ncols P"
    by (cases P; cases i) (simp_all add: set_entry_def ncols_def)
  show "is_mat (set_entry P i j x)"
    unfolding is_mat_def c list_all_length
  proof (intro allI impI)
    fix k assume "k < length (set_entry P i j x)"
    then have k: "k < length P" by (simp add: set_entry_def)
    with assms have "length (P ! k) = ncols P" by (rule is_mat_nth)
    with k show "length (set_entry P i j x ! k) = ncols P"
      by (cases "k = i") (simp_all add: set_entry_def)
  qed
qed

text \<open>
  Claim C2, as the specification states it, fails: the code does not transpose
  \<open>applyAlongRow(Wb\<^sup>T, q)\<close> again. With \<open>Wa\<close> the identity, \<open>Wb = [[1, 2], [3, 4]]\<close> and \<open>q\<close>
  the swap, the code returns \<open>Wa @ (q @ Wb\<^sup>T) = [[2, 4], [1, 3]]\<close>, and the formula of the
  claim, \<open>Wa @ (q @ Wb\<^sup>T)\<^sup>T\<close>, is \<open>[[2, 1], [4, 3]]\<close>.
\<close>

theorem gradient_P_curr_not_transposed:
  "compute_gradient_P_curr (T2 [[1, 0], [0, 1]]) (T2 [[1, 2], [3, 4]]) (Some [[0, 1], [1, 0]])
     = Inr [[2, 4], [1, 3]]
   \<and> mm [[1, 0], [0, 1]] (mat_t (mm [[0, 1], [1, 0]] (mat_t [[1, 2], [3, 4]]))) = [[2, 1], [4, 3]]
   \<and> compute_gradient_P_curr (T2 [[1, 0], [0, 1]]) (T2 [[1, 2], [3, 4]]) (Some [[0, 1], [1, 0]])
     \<noteq> Inr (mm [[1, 0], [0, 1]] (mat_t (mm [[0, 1], [1, 0]] (mat_t [[1, 2], [3, 4]]))))"
  by (simp add: compute_gradient_P_curr_def tdim_def inner_def perm_rows_def lincomb2_def mat_eval)

text \<open>
  Claim C2, amended. For rank-2 tensors \<open>Wa\<close>, \<open>Wb\<close> of the same shape, with no empty
  axis, and a square \<open>q\<close> of the size of their second axis, the contribution to the
  gradient of the row permutation is \<open>Wa \<cdot> applyAlongRow(Wb\<^sup>T, q)\<close>, that is
  \<open>Wa @ (q @ Wb\<^sup>T)\<close>, with no further transpose. It is the partial derivative of the
  similarity of the layer with respect to the row permutation, the column permutation \<open>q\<close>
  held fixed: for every square \<open>P\<close> of the size of the first axis the similarity is the sum
  of the products of the entries of \<open>P\<close> with the entries of that matrix, and its derivative
  in the entry \<open>(i, j)\<close> of \<open>P\<close> is the entry \<open>(i, j)\<close> of that matrix.
\<close>

theorem compute_gradient_P_curr_rank2:
  assumes Wa: "is_mat Wa" and Wb: "is_mat Wb"
    and rows: "nrows Wa = nrows Wb" and cols: "ncols Wa = ncols Wb" and pos: "0 < ncols Wb"
    and q: "is_mat q" "nrows q = ncols Wb" "ncols q = nrows q"
  shows "compute_gradient_P_curr (T2 Wa) (T2 Wb) (Some q) = Inr (mm Wa (mm q (mat_t Wb)))
    \<and> (\<forall>P. is_mat P \<and> nrows P = nrows Wb \<and> ncols P = nrows P \<longrightarrow>
          compute_layer_similarity (T2 Wa) (T2 Wb) P (Some q)
            = Inr (mdot P (mm Wa (mm q (mat_t Wb))))
          \<and> (\<forall>i<nrows P. \<forall>j<nrows P. \<forall>x.
               ((\<lambda>y. similarity_value (T2 Wa) (T2 Wb) (set_entry P i j y) q)
                  has_real_derivative mm Wa (mm q (mat_t Wb)) ! i ! j) (at x)))"
proof (intro conjI allI impI)
  show "compute_gradient_P_curr (T2 Wa) (T2 Wb) (Some q) = Inr (mm Wa (mm q (mat_t Wb)))"
    using rows cols q
    by (simp add: compute_gradient_P_curr_def tdim_def length_inner nrows_def perm_rows_T2 length_mat_t)
next
  fix P :: mat assume P: "is_mat P \<and> nrows P = nrows Wb \<and> ncols P = nrows P"
  then show "compute_layer_similarity (T2 Wa) (T2 Wb) P (Some q)
            = Inr (mdot P (mm Wa (mm q (mat_t Wb))))"
    using similarity_rank2_trace [OF Wa Wb rows cols pos q, of P]
      similarity_rank2_sum [OF Wa Wb rows cols pos q, of P] by simp
next
  let ?G = "mm Wa (mm q (mat_t Wb))"
  fix P :: mat and i j :: nat and x :: real
  assume P: "is_mat P \<and> nrows P = nrows Wb \<and> ncols P = nrows P"
    and i: "i < nrows P" and j: "j < nrows P"
  have ne: "q \<noteq> []" using pos q by (auto simp: nrows_def)
  have li: "length (P ! i) = nrows P" using P i by (simp add: is_mat_nth nrows_def)
  have G: "length ?G = length P" using P rows by (simp add: length_mm nrows_def)
  have "ncols (mm q (mat_t Wb)) = ncols (mat_t Wb)" using ne by (simp add: ncols_mm)
  also have "\<dots> = nrows P" using pos P by (simp add: ncols_mat_t nrows_def)
  finally have Gi: "length (?G ! i) = length (P ! i)"
    using i P rows li by (simp add: length_mm_nth nrows_def)
  have v: "similarity_value (T2 Wa) (T2 Wb) (set_entry P i j y) q
      = mdot P ?G + (y - P ! i ! j) * ?G ! i ! j" for y
  proof -
    from P have P': "is_mat (set_entry P i j y)" "nrows (set_entry P i j y) = nrows Wb"
      "ncols (set_entry P i j y) = nrows (set_entry P i j y)"
      by (simp_all add: set_entry_shape)
    have "compute_layer_similarity (T2 Wa) (T2 Wb) (set_entry P i j y) (Some q)
        = Inr (mdot (set_entry P i j y) ?G)"
      using similarity_rank2_trace [OF Wa Wb rows cols pos q P']
        similarity_rank2_sum [OF Wa Wb rows cols pos q P'] by simp
    moreover have "mdot (set_entry P i j y) ?G = mdot P ?G + (y - P ! i ! j) * ?G ! i ! j"
      using i j li G Gi by (intro mdot_set_entry) (simp_all add: nrows_def)
    ultimately show ?thesis by (simp add: similarity_value_def)
  qed
  show "((\<lambda>y. similarity_value (T2 Wa) (T2 Wb) (set_entry P i j y) q)
                  has_real_derivative ?G ! i ! j) (at x)"
    unfolding v by (auto intro!: derivative_eq_intros)
qed

theorem compute_gradient_P_curr_rank2_witness:
  "is_mat [[1, 2, 3], [4, 5, 6 :: real]] \<and> is_mat [[1, 0, 2], [0, 1, 0 :: real]]
   \<and> nrows [[1, 2, 3], [4, 5, 6 :: real]] = nrows [[1, 0, 2], [0, 1, 0 :: real]]
   \<and> ncols [[1, 2, 3], [4, 5, 6 :: real]] = ncols [[1, 0, 2], [0, 1, 0 :: real]]
   \<and> 0 < ncols [[1, 0, 2], [0, 1, 0 :: real]]
   \<and> is_mat [[0, 1, 0], [0, 0, 1], [1, 0, 0 :: real]]
   \<and> nrows [[0, 1, 0], [0, 0, 1], [1, 0, 0 :: real]] = ncols [[1, 0, 2], [0, 1, 0 :: real]]
   \<and> ncols [[0, 1, 0], [0, 0, 1], [1, 0, 0 :: real]] = nrows [[0, 1, 0], [0, 0, 1], [1, 0, 0 :: real]]
   \<and> compute_gradient_P_curr (T2 [[1, 2, 3], [4, 5, 6]]) (T2 [[1, 0, 2], [0, 1, 0]])
        (Some [[0, 1, 0], [0, 0, 1], [1, 0, 0]]) = Inr [[7, 1], [16, 4]]
   \<and> compute_layer_similarity (T2 [[1, 2, 3], [4, 5, 6]]) (T2 [[1, 0, 2], [0, 1, 0]])
        [[1 / 4, 3 / 4], [3 / 4, 1 / 4]] (Some [[0, 1, 0], [0, 0, 1], [1, 0, 0]]) = Inr (31 / 2)
   \<and> ((\<lambda>y. similarity_value (T2 [[1, 2, 3], [4, 5, 6]]) (T2 [[1, 0, 2], [0, 1, 0]])
              (set_entry [[1 / 4, 3 / 4], [3 / 4, 1 / 4]] 1 0 y) [[0, 1, 0], [0, 0, 1], [1, 0, 0]])
         has_real_derivative 16) (at (3 / 4))"
proof -
  have h: "is_mat [[1, 2, 3], [4, 5, 6 :: real]]" "is_mat [[1, 0, 2], [0, 1, 0 :: real]]"
    "nrows [[1, 2, 3], [4, 5, 6 :: real]] = nrows [[1, 0, 2], [0, 1, 0 :: real]]"
    "ncols [[1, 2, 3], [4, 5, 6 :: real]] = ncols [[1, 0, 2], [0, 1, 0 :: real]]"
    "0 < ncols [[1, 0, 2], [0, 1, 0 :: real]]"
    "is_mat [[0, 1, 0], [0, 0, 1], [1, 0, 0 :: real]]"
    "nrows [[0, 1, 0], [0, 0, 1], [1, 0, 0 :: real]] = ncols [[1, 0, 2], [0, 1, 0 :: real]]"
    "ncols [[0, 1, 0], [0, 0, 1], [1, 0, 0 :: real]] = nrows [[0, 1, 0], [0, 0, 1], [1, 0, 0 :: real]]"
    by (simp_all add: is_mat_def nrows_def ncols_def)
  have p: "is_mat [[1 / 4, 3 / 4], [3 / 4, 1 / 4 :: real]]
      \<and> nrows [[1 / 4, 3 / 4], [3 / 4, 1 / 4 :: real]] = nrows [[1, 0, 2], [0, 1, 0 :: real]]
      \<and> ncols [[1 / 4, 3 / 4], [3 / 4, 1 / 4 :: real]] = nrows [[1 / 4, 3 / 4], [3 / 4, 1 / 4 :: real]]"
    by (simp add: is_mat_def nrows_def ncols_def)
  have g: "mm [[1, 2, 3], [4, 5, 6]] (mm [[0, 1, 0], [0, 0, 1], [1, 0, 0]] (mat_t [[1, 0, 2], [0, 1, 0]]))
      = [[7, 1], [16, 4]]"
    by (simp add: mat_eval)
  have m: "mdot [[1 / 4, 3 / 4], [3 / 4, 1 / 4]] [[7, 1], [16, 4]] = 31 / 2"
    by (simp add: mdot_def dot_def)
  have n: "(1 :: nat) < nrows [[1 / 4, 3 / 4], [3 / 4, 1 / 4 :: real]]"
    "(0 :: nat) < nrows [[1 / 4, 3 / 4], [3 / 4, 1 / 4 :: real]]"
    by (simp_all add: nrows_def)
  from compute_gradient_P_curr_rank2 [OF h] p n
  have "compute_gradient_P_curr (T2 [[1, 2, 3], [4, 5, 6]]) (T2 [[1, 0, 2], [0, 1, 0]])
        (Some [[0, 1, 0], [0, 0, 1], [1, 0, 0]]) = Inr [[7, 1], [16, 4]]"
    and "compute_layer_similarity (T2 [[1, 2, 3], [4, 5, 6]]) (T2 [[1, 0, 2], [0, 1, 0]])
        [[1 / 4, 3 / 4], [3 / 4, 1 / 4]] (Some [[0, 1, 0], [0, 0, 1], [1, 0, 0]]) = Inr (31 / 2)"
    and "((\<lambda>y. similarity_value (T2 [[1, 2, 3], [4, 5, 6]]) (T2 [[1, 0, 2], [0, 1, 0]])
              (set_entry [[1 / 4, 3 / 4], [3 / 4, 1 / 4]] 1 0 y) [[0, 1, 0], [0, 0, 1], [1, 0, 0]])
         has_real_derivative [[7, 1], [16, 4 :: real]] ! 1 ! 0) (at (3 / 4))"
    unfolding g m [symmetric] by blast+
  with h show ?thesis by simp
qed

subsection \<open>The topology after a call of \<open>frank_wolfe_weight_matching\<close>\<close>

lemma update_same_iff: "AList.update k v al = al \<longleftrightarrow> map_of al k = Some v"
  by (induction al) auto

lemma update_mem: "(k, v) \<in> set (AList.update k v al)"
  by (induction al) auto

lemma compute_perm_sizes_missing:
  "(p, pa) \<in> set al \<Longrightarrow> pa \<noteq> [] \<Longrightarrow> map_of params_a (fst (pa ! 0)) = None
     \<Longrightarrow> \<exists>e. compute_perm_sizes params_a al = Inl e"
proof (induction al)
  case Nil
  then show ?case by simp
next
  case (Cons x al)
  obtain q qa where x: "x = (q, qa)" by (cases x)
  show ?case
  proof (cases "(p, pa) = x")
    case True
    with Cons.prems x show ?thesis by (simp add: Let_def)
  next
    case False
    with Cons obtain e where "compute_perm_sizes params_a al = Inl e" by auto
    then show ?thesis
      by (simp add: x Let_def split: option.splits)
  qed
qed

lemma compute_perm_sizes_lookup:
  "compute_perm_sizes params_a al = Inr sizes \<Longrightarrow> map_of al p = Some pa
     \<Longrightarrow> \<exists>W. pa \<noteq> [] \<and> map_of params_a (fst (pa ! 0)) = Some W \<and> snd (pa ! 0) < tdim W
           \<and> map_of sizes p = Some (shape W ! snd (pa ! 0))"
proof (induction al arbitrary: sizes)
  case Nil
  then show ?case by simp
next
  case (Cons x al)
  obtain q qa where x: "x = (q, qa)" by (cases x)
  from Cons.prems(1) x obtain W r where
    W: "qa \<noteq> []" "map_of params_a (fst (qa ! 0)) = Some W" "snd (qa ! 0) < tdim W"
      "compute_perm_sizes params_a al = Inr r" "sizes = (q, shape W ! snd (qa ! 0)) # r"
    by (auto simp: Let_def thn_eq_Inr split: if_splits option.splits)
  show ?case
  proof (cases "p = q")
    case True
    with Cons.prems(2) x W show ?thesis by simp
  next
    case False
    with Cons.prems(2) x have "map_of al p = Some pa" by simp
    from Cons.IH [OF W(4) this] False W(5) show ?thesis by simp
  qed
qed

text \<open>
  Claim C9, as stated, fails in its last part: a topology that already maps \<open>P_final\<close> to
  \<open>[("linear.weight", 0)]\<close>, as it does after a first call, is the same after the call.
\<close>

theorem topology_unchanged_on_second_call:
  "frank_wolfe_weight_matching example_ext [7] output_only_spec_again
     [(''linear.weight'', T2 [[1]])] [(''linear.weight'', T2 [[2]])] ''identity'' 1 False
   = (Inr ([(''P_final'', [0])], None), output_only_spec_again)"
  by (simp add: fw_eval output_only_spec_again_def)

text \<open>
  Claim C9, amended. Before any trial, and whatever the outcome of the call, the topology
  is assigned the entry \<open>P_final \<mapsto> [("linear.weight", 0)]\<close>; the call fails when the fixed
  parameters have no \<open>linear.weight\<close>, whose extent along axis 0 is the size of \<open>P_final\<close>;
  and the topology after the call differs from the one before exactly when it did not hold
  that entry already.
\<close>

theorem frank_wolfe_weight_matching_topology:
  "snd (frank_wolfe_weight_matching E seeds ps fixed permutee m k h)
     = ps\<lparr>perm_to_layers_and_axes :=
            AList.update ''P_final'' [(''linear.weight'', 0)] (perm_to_layers_and_axes ps)\<rparr>
   \<and> map_of (perm_to_layers_and_axes (snd (frank_wolfe_weight_matching E seeds ps fixed permutee m k h)))
        ''P_final'' = Some [(''linear.weight'', 0)]
   \<and> (map_of fixed ''linear.weight'' = None \<longrightarrow>
        (\<exists>e. fst (frank_wolfe_weight_matching E seeds ps fixed permutee m k h) = Inl e))
   \<and> (\<forall>sizes. compute_perm_sizes fixed
          (perm_to_layers_and_axes (snd (frank_wolfe_weight_matching E seeds ps fixed permutee m k h))) = Inr sizes
        \<longrightarrow> (\<exists>W. map_of fixed ''linear.weight'' = Some W \<and> map_of sizes ''P_final'' = Some (shape W ! 0)))
   \<and> (snd (frank_wolfe_weight_matching E seeds ps fixed permutee m k h) = ps
        \<longleftrightarrow> map_of (perm_to_layers_and_axes ps) ''P_final'' = Some [(''linear.weight'', 0)])"
proof -
  let ?al = "AList.update ''P_final'' [(''linear.weight'', 0 :: nat)] (perm_to_layers_and_axes ps)"
  let ?ps' = "ps\<lparr>perm_to_layers_and_axes := ?al\<rparr>"
  have a: "snd (frank_wolfe_weight_matching E seeds ps fixed permutee m k h) = ?ps'"
    by (simp add: frank_wolfe_weight_matching_def Let_def)
  have b: "map_of ?al ''P_final'' = Some [(''linear.weight'', 0)]"
    by (simp add: update_conv')
  have c: "\<exists>e. fst (frank_wolfe_weight_matching E seeds ps fixed permutee m k h) = Inl e"
    if "map_of fixed ''linear.weight'' = None"
  proof -
    from compute_perm_sizes_missing [OF update_mem, of "[(''linear.weight'', 0)]" fixed "''P_final''"
        "perm_to_layers_and_axes ps"] that
    obtain e where "compute_perm_sizes fixed ?al = Inl e" by auto
    then show ?thesis by (simp add: frank_wolfe_weight_matching_def Let_def)
  qed
  have d: "\<exists>W. map_of fixed ''linear.weight'' = Some W \<and> map_of sizes ''P_final'' = Some (shape W ! 0)"
    if "compute_perm_sizes fixed ?al = Inr sizes" for sizes
    using compute_perm_sizes_lookup [OF that b] by auto
  have e: "?ps' = ps \<longleftrightarrow> map_of (perm_to_layers_and_axes ps) ''P_final'' = Some [(''linear.weight'', 0)]"
  proof
    assume "?ps' = ps"
    then have "perm_to_layers_and_axes ?ps' = perm_to_layers_and_axes ps" by simp
    then show "map_of (perm_to_layers_and_axes ps) ''P_final'' = Some [(''linear.weight'', 0)]"
      by (simp add: update_same_iff)
  next
    assume "map_of (perm_to_layers_and_axes ps) ''P_final'' = Some [(''linear.weight'', 0)]"
    then have "?al = perm_to_layers_and_axes ps" by (simp add: update_same_iff)
    then show "?ps' = ps" by simp
  qed
  from a b c d e show ?thesis by simp
qed

theorem frank_wolfe_weight_matching_topology_witness:
  "map_of ([] :: params) ''linear.weight'' = None
   \<and> (\<exists>e. fst (frank_wolfe_weight_matching example_ext [7] output_only_spec [] [] ''identity'' 1 False) = Inl e)
   \<and> snd (frank_wolfe_weight_matching example_ext [7] output_only_spec [] [] ''identity'' 1 False)
       = output_only_spec_again
   \<and> snd (frank_wolfe_weight_matching example_ext [7] output_only_spec [] [] ''identity'' 1 False)
       \<noteq> output_only_spec
   \<and> compute_perm_sizes [(''linear.weight'', T2 [[1, 2], [3, 4], [5, 6]])]
       (perm_to_layers_and_axes (snd (frank_wolfe_weight_matching example_ext [7] output_only_spec
          [(''linear.weight'', T2 [[1, 2], [3, 4], [5, 6]])] [] ''identity'' 1 False)))
       = Inr [(''P_final'', 3)]"
proof -
  have n: "map_of ([] :: params) ''linear.weight'' = None" by simp
  have s: "compute_perm_sizes [(''linear.weight'', T2 [[1, 2], [3, 4], [5, 6]])]
       (perm_to_layers_and_axes (snd (frank_wolfe_weight_matching example_ext [7] output_only_spec
          [(''linear.weight'', T2 [[1, 2], [3, 4], [5, 6]])] [] ''identity'' 1 False)))
       = Inr [(''P_final'', 3)]"
    by (simp add: frank_wolfe_weight_matching_def output_only_spec_def tdim_def inner_def Let_def)
  have u: "map_of (perm_to_layers_and_axes output_only_spec) ''P_final'' \<noteq> Some [(''linear.weight'', 0)]"
    by (simp add: output_only_spec_def)
  from n s u
    frank_wolfe_weight_matching_topology [of example_ext "[7]" output_only_spec "[]" "[]" "''identity''" 1 False]
    frank_wolfe_weight_matching_topology [of example_ext "[7]" output_only_spec
      "[(''linear.weight'', T2 [[1, 2], [3, 4], [5, 6]])]" "[]" "''identity''" 1 False]
  show ?thesis
    by (simp add: output_only_spec_def output_only_spec_again_def)
qed

subsection \<open>Errors of \<open>sinkhorn_knopp\<close>\<close>

lemma all_nonneg_floats: "all_nonneg (floats M) \<longleftrightarrow> list_all (list_all (\<lambda>x. 0 \<le> x)) M"
  by (simp add: all_nonneg_def floats_def ge0_def list_all_iff)

lemma numbers_floats: "numbers (floats M) = M"
  by (simp add: numbers_def floats_def comp_def)

lemma nrows_floats: "nrows (floats M) = nrows M"
  by (simp add: nrows_def floats_def)

lemma ncols_floats: "ncols (floats M) = ncols M"
  by (cases M) (simp_all add: ncols_def floats_def)

text \<open>
  Claim C8, as stated, fails: a non-square matrix with a negative entry does not fail with
  the error for the shape. The test for negative entries comes first, so on \<open>[[-1, 2]]\<close>
  the error is the one for negative values.
\<close>

theorem sinkhorn_knopp_negative_before_shape:
  "nrows [[Some (- 1), Some (2 :: real)]] \<noteq> ncols [[Some (- 1), Some (2 :: real)]]
   \<and> sinkhorn_knopp [[Some (- 1), Some 2]] (1 / 10 ^ 10) 1000
       = Inl (ValueError ''Matrix contains negative values.'')
   \<and> sinkhorn_knopp [[Some (- 1), Some 2]] (1 / 10 ^ 10) 1000
       \<noteq> Inl (ValueError ''Matrix must be square.'')"
  by (simp add: sinkhorn_knopp_def all_nonneg_def ge0_def nrows_def ncols_def)

text \<open>
  Claim C8, amended. \<open>sinkhorn_knopp\<close> raises if and only if some entry of its input is
  not a number that is at least 0 (it is negative, or NaN) or the input is not square, and
  the two errors are \<open>ValueError\<close>s: the one for negative values exactly when some entry is
  not at least 0, whatever the shape, and the one for the shape exactly when all entries are
  at least 0 and the matrix is not square. Exactly the square matrices with all entries at
  least 0 give a result.
\<close>

theorem sinkhorn_knopp_raises_iff:
  "(sinkhorn_knopp matrix tol k = Inl (ValueError ''Matrix contains negative values.'')
      \<longleftrightarrow> \<not> all_nonneg matrix)
   \<and> (sinkhorn_knopp matrix tol k = Inl (ValueError ''Matrix must be square.'')
      \<longleftrightarrow> all_nonneg matrix \<and> nrows matrix \<noteq> ncols matrix)
   \<and> ((\<exists>r. sinkhorn_knopp matrix tol k = Inr r) \<longleftrightarrow> all_nonneg matrix \<and> nrows matrix = ncols matrix)
   \<and> ((\<exists>e. sinkhorn_knopp matrix tol k = Inl e) \<longleftrightarrow> \<not> all_nonneg matrix \<or> nrows matrix \<noteq> ncols matrix)
   \<and> (\<forall>e. sinkhorn_knopp matrix tol k = Inl e \<longrightarrow>
         e = ValueError ''Matrix contains negative values.'' \<or> e = ValueError ''Matrix must be square.'')
   \<and> (all_nonneg matrix \<longleftrightarrow> (\<forall>row\<in>set matrix. \<forall>x\<in>set row. \<exists>v. x = Some v \<and> 0 \<le> v))"
proof -
  have a: "all_nonneg matrix \<longleftrightarrow> (\<forall>row\<in>set matrix. \<forall>x\<in>set row. \<exists>v. x = Some v \<and> 0 \<le> v)"
    by (fastforce simp: all_nonneg_def ge0_def list_all_iff split: option.splits)
  show ?thesis
    unfolding a [symmetric] by (simp add: sinkhorn_knopp_def)
qed

theorem sinkhorn_knopp_raises_iff_witness:
  "sinkhorn_knopp [[Some 1, None], [Some 0, Some 1]] (1 / 10 ^ 10) 1000
      = Inl (ValueError ''Matrix contains negative values.'')
   \<and> sinkhorn_knopp [[Some 1, Some (- 2)], [Some 0, Some 1]] (1 / 10 ^ 10) 1000
      = Inl (ValueError ''Matrix contains negative values.'')
   \<and> sinkhorn_knopp [[Some 1, Some 2]] (1 / 10 ^ 10) 1000 = Inl (ValueError ''Matrix must be square.'')
   \<and> (\<exists>r. sinkhorn_knopp [[Some 1, Some 2], [Some 3, Some 4]] (1 / 10 ^ 10) 1000 = Inr r)"
proof -
  have a: "\<not> all_nonneg [[Some 1, None], [Some 0, Some 1]]"
    "\<not> all_nonneg [[Some 1, Some (- 2)], [Some 0, Some 1]]"
    by (simp_all add: all_nonneg_def ge0_def)
  have b: "all_nonneg [[Some 1, Some 2]] \<and> nrows [[Some 1, Some (2 :: real)]] \<noteq> ncols [[Some 1, Some (2 :: real)]]"
    by (simp add: all_nonneg_def ge0_def nrows_def ncols_def)
  have c: "all_nonneg [[Some 1, Some 2], [Some 3, Some 4]]
      \<and> nrows [[Some 1, Some 2], [Some 3, Some (4 :: real)]] = ncols [[Some 1, Some 2], [Some 3, Some (4 :: real)]]"
    by (simp add: all_nonneg_def ge0_def nrows_def ncols_def)
  from a b c
    sinkhorn_knopp_raises_iff [of "[[Some 1, None], [Some 0, Some 1]]" "1 / 10 ^ 10" 1000]
    sinkhorn_knopp_raises_iff [of "[[Some 1, Some (- 2)], [Some 0, Some 1]]" "1 / 10 ^ 10" 1000]
    sinkhorn_knopp_raises_iff [of "[[Some 1, Some 2]]" "1 / 10 ^ 10" 1000]
    sinkhorn_knopp_raises_iff [of "[[Some 1, Some 2], [Some 3, Some 4]]" "1 / 10 ^ 10" 1000]
  show ?thesis by blast
qed

subsection \<open>The passes of \<open>sinkhorn_knopp\<close>\<close>

lemmas sk_eval = sk_pass_def sk_init_def sk_normalize_def msum_def nrows_def ncols_def
  recip_eps_def mv_def mm_def diag_def mat_t_def col_def dot_def sum_dim0_def sum_dim1_def
  eps16_def Let_def upt_conv_Cons

lemma sk_loop_passes:
  "\<exists>j\<le>k. sk_loop k tol s = fst ((sk_pass ^^ j) s)
     \<and> (\<forall>i. 0 < i \<and> i < j \<longrightarrow> \<not> sk_close tol (fst ((sk_pass ^^ i) s)))
     \<and> (j < k \<longrightarrow> 0 < j \<and> sk_close tol (fst ((sk_pass ^^ j) s)))"
proof (induction k arbitrary: s)
  case 0
  then show ?case by simp
next
  case (Suc k)
  show ?case
  proof (cases "sk_close tol (fst (sk_pass s))")
    case True
    then have "sk_loop (Suc k) tol s = fst ((sk_pass ^^ 1) s)" by (simp add: Let_def)
    with True show ?thesis
      by (intro exI [of _ 1]) simp
  next
    case False
    from Suc.IH [of "sk_pass s"] obtain j where j: "j \<le> k"
      "sk_loop k tol (sk_pass s) = fst ((sk_pass ^^ j) (sk_pass s))"
      "\<forall>i. 0 < i \<and> i < j \<longrightarrow> \<not> sk_close tol (fst ((sk_pass ^^ i) (sk_pass s)))"
      "j < k \<longrightarrow> 0 < j \<and> sk_close tol (fst ((sk_pass ^^ j) (sk_pass s)))"
      by blast
    have sw: "\<And>i. (sk_pass ^^ i) (sk_pass s) = (sk_pass ^^ Suc i) s"
      by (simp add: funpow_swap1)
    have a: "sk_loop (Suc k) tol s = fst ((sk_pass ^^ Suc j) s)"
      using False j(2) by (simp add: Let_def funpow_swap1)
    have b: "\<forall>i. 0 < i \<and> i < Suc j \<longrightarrow> \<not> sk_close tol (fst ((sk_pass ^^ i) s))"
    proof (intro allI impI)
      fix i assume i: "0 < i \<and> i < Suc j"
      then obtain i' where i': "i = Suc i'" by (cases i) auto
      show "\<not> sk_close tol (fst ((sk_pass ^^ i) s))"
      proof (cases i')
        case 0
        with i' False show ?thesis by simp
      next
        case (Suc n)
        with i i' have "0 < i' \<and> i' < j" by simp
        with j(3) have "\<not> sk_close tol (fst ((sk_pass ^^ i') (sk_pass s)))" by blast
        then show ?thesis by (simp add: i' sw del: funpow.simps)
      qed
    qed
    have c: "Suc j < Suc k \<longrightarrow> 0 < Suc j \<and> sk_close tol (fst ((sk_pass ^^ Suc j) s))"
      using j(4) by (simp add: sw del: funpow.simps)
    from j(1) a b c show ?thesis
      by (intro exI [of _ "Suc j"]) simp
  qed
qed

text \<open>
  The loop is as the claim C3 says: on a square matrix with all entries at least 0,
  \<open>sinkhorn_knopp\<close> returns the matrix reached after \<open>j \<le> max_iterations\<close> passes; no
  earlier pass passed the test that all row and column sums are within \<open>tol\<close> of 1, and
  when \<open>j < max_iterations\<close> pass \<open>j\<close> passed it. At the cap the current matrix is returned.
\<close>

lemma sinkhorn_knopp_stops:
  assumes "all_nonneg matrix" and "nrows matrix = ncols matrix"
  shows "\<exists>j\<le>k. sinkhorn_knopp matrix tol k = Inr (fst ((sk_pass ^^ j) (sk_init (numbers matrix))))
     \<and> (\<forall>i. 0 < i \<and> i < j \<longrightarrow> \<not> sk_close tol (fst ((sk_pass ^^ i) (sk_init (numbers matrix)))))
     \<and> (j < k \<longrightarrow> 0 < j \<and> sk_close tol (fst ((sk_pass ^^ j) (sk_init (numbers matrix)))))"
  using assms sk_loop_passes [of k tol "sk_init (numbers matrix)"]
  by (simp add: sinkhorn_knopp_def)

lemma sk_pass_diag2:
  "sk_pass ([[a, 0], [0, b]], rs, [c1, c2]) =
     ([[a / ((a * c1 + eps16) * (a / ((a * c1 + eps16) * (a * c1 + eps16)) + eps16)), 0],
       [0, b / ((b * c2 + eps16) * (b / ((b * c2 + eps16) * (b * c2 + eps16)) + eps16))]],
      [1 / (a * c1 + eps16), 1 / (b * c2 + eps16)],
      [1 / (a / ((a * c1 + eps16) * (a * c1 + eps16)) + eps16),
       1 / (b / ((b * c2 + eps16) * (b * c2 + eps16)) + eps16)])"
  by (simp add: sk_pass_def recip_eps_def mv_def mm_def diag_def mat_t_def col_def dot_def
      nrows_def ncols_def Let_def upt_conv_Cons)

lemma sk_init_diag2:
  "sk_init [[1, 0], [0, 3]] = ([[1 / (4 + eps16), 0], [0, 3 / (4 + eps16)]], [1, 1], [1, 1])"
  by (simp add: sk_init_def sk_normalize_def msum_def nrows_def ncols_def)

lemma sk_scale_bounds:
  fixes a c e :: real
  assumes "0 < a" "0 < c" "0 < e"
  shows "0 < a / ((a * c + e) * (a / ((a * c + e) * (a * c + e)) + e))"
    and "a / ((a * c + e) * (a / ((a * c + e) * (a * c + e)) + e)) < a * c + e"
    and "0 < 1 / (a / ((a * c + e) * (a * c + e)) + e)"
    and "1 / (a / ((a * c + e) * (a * c + e)) + e) < (a * c + e) * (a * c + e) / a"
proof -
  define d where "d = a * c + e"
  have d: "0 < d" using assms by (simp add: d_def add_pos_pos)
  have y: "0 < a / (d * d) + e" using assms d by (simp add: add_pos_pos)
  have dy: "0 < d * (a / (d * d) + e)" using d y by simp
  show "0 < a / ((a * c + e) * (a / ((a * c + e) * (a * c + e)) + e))"
    using assms dy unfolding d_def by simp
  have e1: "d * (d * (a / (d * d) + e)) = a + d * d * e"
    using d by (simp add: field_simps)
  have "a < d * (d * (a / (d * d) + e))" unfolding e1 using d assms by simp
  then have "a / (d * (a / (d * d) + e)) < d"
    using dy by (simp add: pos_divide_less_eq mult.commute)
  then show "a / ((a * c + e) * (a / ((a * c + e) * (a * c + e)) + e)) < a * c + e"
    unfolding d_def .
  show "0 < 1 / (a / ((a * c + e) * (a * c + e)) + e)"
    using y unfolding d_def by simp
  define x where "x = a / (d * d)"
  have x: "0 < x" using assms d by (simp add: x_def)
  have "1 / (x + e) < 1 / x"
    using x assms by (intro divide_strict_left_mono) (simp_all add: add_pos_pos)
  also have "1 / x = d * d / a" by (simp add: x_def)
  finally have "1 / (a / (d * d) + e) < d * d / a" unfolding x_def .
  then show "1 / (a / ((a * c + e) * (a * c + e)) + e) < (a * c + e) * (a * c + e) / a"
    unfolding d_def .
qed

lemma eps16_bounds: "0 < eps16" "eps16 < 1 / 1000"
  by (simp_all add: eps16_def)

text \<open>
  Claim C3 is what the docstring of \<open>sinkhorn_knopp\<close> promises (the Sinkhorn-Knopp
  algorithm, with a doubly stochastic result), and the code misses it: the scale factors of
  a pass are not the reciprocals of the current row and column sums, but of those sums
  weighted by the scale vector of the step before. On \<open>[[1, 0], [0, 3]]\<close> the pass of the
  claim gives column sums 1 at once; the first pass of the code leaves the first column sum
  below \<open>1/2\<close>, so the loop goes on, and the second leaves it below \<open>1/10\<close>, further
  from 1. With \<open>max_iterations = 2\<close> that matrix is what is returned.
\<close>

theorem sinkhorn_pass_not_reciprocal_sums:
  "fst (sk_pass (sk_init [[1, 0], [0, 3]])) \<noteq> spec_rescale_pass (sk_normalize [[1, 0], [0, 3]])
   \<and> sum_dim0 (fst (sk_pass (sk_init [[1, 0], [0, 3]]))) ! 0 < 1 / 2
   \<and> sum_dim0 (fst ((sk_pass ^^ 2) (sk_init [[1, 0], [0, 3]]))) ! 0 < 1 / 10
   \<and> sum_dim0 (spec_rescale_pass (sk_normalize [[1, 0], [0, 3]])) = [1, 1]
   \<and> sinkhorn_knopp [[Some 1, Some 0], [Some 0, Some 3]] (1 / 10 ^ 10) 2
       = Inr (fst ((sk_pass ^^ 2) (sk_init [[1, 0], [0, 3]])))"
proof -
  define a0 where "a0 = 1 / (4 + eps16)"
  define b0 where "b0 = 3 / (4 + eps16)"
  define a1 where "a1 = a0 / ((a0 * 1 + eps16) * (a0 / ((a0 * 1 + eps16) * (a0 * 1 + eps16)) + eps16))"
  define b1 where "b1 = b0 / ((b0 * 1 + eps16) * (b0 / ((b0 * 1 + eps16) * (b0 * 1 + eps16)) + eps16))"
  define c1 where "c1 = 1 / (a0 / ((a0 * 1 + eps16) * (a0 * 1 + eps16)) + eps16)"
  define d1 where "d1 = 1 / (b0 / ((b0 * 1 + eps16) * (b0 * 1 + eps16)) + eps16)"
  define a2 where "a2 = a1 / ((a1 * c1 + eps16) * (a1 / ((a1 * c1 + eps16) * (a1 * c1 + eps16)) + eps16))"
  define b2 where "b2 = b1 / ((b1 * d1 + eps16) * (b1 / ((b1 * d1 + eps16) * (b1 * d1 + eps16)) + eps16))"
  note e = eps16_bounds
  have s0: "sk_init [[1, 0], [0, 3]] = ([[a0, 0], [0, b0]], [1, 1], [1, 1])"
    by (simp add: sk_init_diag2 a0_def b0_def)
  have s1: "sk_pass (sk_init [[1, 0], [0, 3]])
      = ([[a1, 0], [0, b1]], [1 / (a0 * 1 + eps16), 1 / (b0 * 1 + eps16)], [c1, d1])"
    unfolding s0 sk_pass_diag2 a1_def b1_def c1_def d1_def ..
  have s2: "fst (sk_pass (sk_pass (sk_init [[1, 0], [0, 3]]))) = [[a2, 0], [0, b2]]"
    unfolding s1 sk_pass_diag2 a2_def b2_def by simp
  have a0: "0 < a0" "a0 < 1 / 4"
    using e by (simp_all add: a0_def field_simps)
  have a0e: "a0 * (4 + eps16) = 1" using e by (simp add: a0_def)
  from sk_scale_bounds [of a0 1 eps16] a0 e
  have a1: "0 < a1" "a1 < a0 + eps16" "0 < c1" "c1 < (a0 + eps16) * (a0 + eps16) / a0"
    by (simp_all add: a1_def c1_def)
  from sk_scale_bounds [of a1 c1 eps16] a1 e
  have a2: "a2 < a1 * c1 + eps16"
    by (simp add: a2_def)
  have q: "a0 + eps16 < 251 / 1000" using a0 e by simp
  have q0: "0 < a0 + eps16" using a0 e by simp
  have ia: "1 / a0 = 4 + eps16" using e by (simp add: a0_def)
  have "(a0 + eps16) * (a0 + eps16) / a0 = (a0 + eps16) * (a0 + eps16) * (1 / a0)" by simp
  then have inv: "(a0 + eps16) * (a0 + eps16) / a0 = (a0 + eps16) * (a0 + eps16) * (4 + eps16)"
    unfolding ia .
  have xx: "(a0 + eps16) * (a0 + eps16) < (251 / 1000) * (251 / 1000)"
    by (rule mult_strict_mono [OF q q]) (use q0 in simp_all)
  have y: "4 + eps16 < 4001 / 1000" using e by simp
  have "(a0 + eps16) * (a0 + eps16) * (4 + eps16) < (251 / 1000) * (251 / 1000) * (4001 / 1000)"
    by (rule mult_strict_mono [OF xx y]) (use e in simp_all)
  with a1(4) inv have c1b: "c1 < (251 / 1000) * (251 / 1000) * (4001 / 1000)" by simp
  have a1q: "a1 < 251 / 1000" using a1(2) q by simp
  have "a1 * c1 < (251 / 1000) * ((251 / 1000) * (251 / 1000) * (4001 / 1000))"
    by (rule mult_strict_mono [OF a1q c1b]) (use a1 in simp_all)
  with a2 e have a2b: "a2 < 1 / 10" by simp
  have a1b: "a1 < 1 / 2" using a1(2) q by simp
  have p1: "sum_dim0 (fst (sk_pass (sk_init [[1, 0], [0, 3]]))) ! 0 = a1"
    unfolding s1 by (simp add: sum_dim0_def ncols_def col_def upt_conv_Cons)
  have p2: "sum_dim0 (fst ((sk_pass ^^ 2) (sk_init [[1, 0], [0, 3]]))) ! 0 = a2"
    unfolding numeral_2_eq_2 funpow.simps comp_def id_def s2
    by (simp add: sum_dim0_def ncols_def col_def upt_conv_Cons)
  have nc: "\<not> sk_close (1 / 10 ^ 10) (fst (sk_pass (sk_init [[1, 0], [0, 3]])))"
    unfolding s1 using a1b by (simp add: sk_close_def sum_dim0_def ncols_def col_def upt_conv_Cons)
  have r: "sinkhorn_knopp [[Some 1, Some 0], [Some 0, Some 3]] (1 / 10 ^ 10) 2
       = Inr (fst ((sk_pass ^^ 2) (sk_init [[1, 0], [0, 3]])))"
    using nc
    by (simp add: sinkhorn_knopp_def all_nonneg_def ge0_def numbers_def nrows_def ncols_def Let_def
        numeral_2_eq_2)
  have sp: "sum_dim0 (spec_rescale_pass (sk_normalize [[1, 0], [0, 3]])) = [1, 1]"
    by (simp add: sk_eval spec_rescale_pass_def)
  from p1 a1b sp
  have ne: "fst (sk_pass (sk_init [[1, 0], [0, 3]])) \<noteq> spec_rescale_pass (sk_normalize [[1, 0], [0, 3]])"
    by auto
  from ne p1 p2 a1b a2b sp r show ?thesis by simp
qed

subsection \<open>The trial that is kept\<close>

lemma replicate_numeral: "replicate (numeral k) x = x # replicate (pred_numeral k) x"
  by (simp add: numeral_eq_Suc)

lemma run_trials_none_kept:
  assumes "\<forall>seed\<in>set seeds. \<exists>pm hist obj.
      frank_wolfe_weight_matching_trial E seed pa pb sizes m ps k = Inr (pm, hist, obj) \<and> obj \<le> 0"
  shows "run_trials E pa pb sizes m ps k seeds (0, None) = Inr (0, None)"
  using assms by (induction seeds) auto

lemma trial_output_only_negative:
  "frank_wolfe_weight_matching_trial example_ext seed [(''linear.weight'', T2 [[1]])]
        [(''linear.weight'', T2 [[-1]])] [(''P_final'', 1)] ''identity'' output_only_spec_again 2
      = Inr ([(''P_final'', [[1]])],
             [[(''P_final'', [[1]])], [(''P_final'', [[1]])], [(''P_final'', [[1]])]], -1)"
  by (simp add: fw_eval output_only_spec_again_def numeral_2_eq_2)

text \<open>
  Claim C10. When every trial ends with an objective of at most 0, no trial is kept and
  \<open>frank_wolfe_weight_matching\<close> fails on the unbound \<open>best_perm_matrices\<close>: the best
  objective starts at \<open>0.0\<close> and a trial is kept only if its objective is greater.
\<close>

theorem no_trial_kept_unbound:
  assumes "compute_perm_sizes fixed
      (AList.update ''P_final'' [(''linear.weight'', 0)] (perm_to_layers_and_axes ps)) = Inr sizes"
    and "\<forall>seed\<in>set seeds. \<exists>pm hist obj.
      frank_wolfe_weight_matching_trial E seed fixed permutee sizes m
        (ps\<lparr>perm_to_layers_and_axes :=
            AList.update ''P_final'' [(''linear.weight'', 0)] (perm_to_layers_and_axes ps)\<rparr>) k
        = Inr (pm, hist, obj) \<and> obj \<le> 0"
  shows "fst (frank_wolfe_weight_matching E seeds ps fixed permutee m k h)
     = Inl (UnboundLocalError ''best_perm_matrices'')"
  using assms(1) run_trials_none_kept [OF assms(2)]
  by (simp add: frank_wolfe_weight_matching_def Let_def)

theorem no_trial_kept_unbound_witness:
  "fst (frank_wolfe_weight_matching example_ext [3, 1, 4] output_only_spec
       [(''linear.weight'', T2 [[1]])] [(''linear.weight'', T2 [[-1]])] ''identity'' 2 False)
     = Inl (UnboundLocalError ''best_perm_matrices'')"
proof -
  have s: "compute_perm_sizes [(''linear.weight'', T2 [[1]])]
      (AList.update ''P_final'' [(''linear.weight'', 0)] (perm_to_layers_and_axes output_only_spec))
      = Inr [(''P_final'', 1)]"
    by (simp add: output_only_spec_def tdim_def inner_def Let_def)
  have p: "output_only_spec\<lparr>perm_to_layers_and_axes :=
            AList.update ''P_final'' [(''linear.weight'', 0)] (perm_to_layers_and_axes output_only_spec)\<rparr>
      = output_only_spec_again"
    by (simp add: output_only_spec_def output_only_spec_again_def)
  have t: "\<forall>seed\<in>set [3, 1, 4]. \<exists>pm hist obj.
      frank_wolfe_weight_matching_trial example_ext seed [(''linear.weight'', T2 [[1]])]
        [(''linear.weight'', T2 [[-1]])] [(''P_final'', 1)] ''identity''
        (output_only_spec\<lparr>perm_to_layers_and_axes :=
            AList.update ''P_final'' [(''linear.weight'', 0)] (perm_to_layers_and_axes output_only_spec)\<rparr>) 2
        = Inr (pm, hist, obj) \<and> obj \<le> 0"
    unfolding p by (simp add: trial_output_only_negative del: One_nat_def)
  from no_trial_kept_unbound [OF s t] show ?thesis .
qed

text \<open>
  Claim C6 is what the driver is meant to do, and the code misses it when no objective is
  positive: the only trial below ends with the objective \<open>-3\<close>, the highest of the run, and
  is not kept; the call fails instead of returning its permutations.
\<close>

theorem best_trial_not_kept_when_negative:
  "frank_wolfe_weight_matching_trial example_ext 3 [(''linear.weight'', T2 [[1, 0], [0, 1]])]
        [(''linear.weight'', T2 [[-1, 0], [0, -2]])] [(''P_final'', 2)] ''identity'' output_only_spec_again 1
      = Inr ([(''P_final'', [[1, 0], [0, 1]])],
             [[(''P_final'', [[1, 0], [0, 1]])], [(''P_final'', [[1, 0], [0, 1]])]], -3)
   \<and> fst (frank_wolfe_weight_matching example_ext [3] output_only_spec
       [(''linear.weight'', T2 [[1, 0], [0, 1]])] [(''linear.weight'', T2 [[-1, 0], [0, -2]])] ''identity'' 1 False)
     = Inl (UnboundLocalError ''best_perm_matrices'')"
  by (simp add: fw_eval output_only_spec_again_def output_only_spec_def replicate_numeral)

subsection \<open>The fixed output permutation\<close>

lemma update_perm_matrices_keeps_fixed:
  "update_perm_matrices pm proj_grads t = Inr pm' \<Longrightarrow> fixed_perm p \<Longrightarrow> map_of pm' p = map_of pm p"
proof (induction pm arbitrary: pm')
  case Nil
  then show ?case by simp
next
  case (Cons x pm)
  obtain q M where x: "x = (q, M)" by (cases x)
  from Cons.prems(1) x obtain M' r where
    r: "update_perm_matrices pm proj_grads t = Inr r" "pm' = (q, M') # r"
      "(if fixed_perm q then Inr M
        else case map_of proj_grads q of None \<Rightarrow> Inl (KeyError q)
             | Some proj_grad \<Rightarrow> interp t M proj_grad) = Inr M'"
    by (auto simp: thn_eq_Inr)
  show ?case
  proof (cases "p = q")
    case True
    with r(3) Cons.prems(2) have "M' = M" by simp
    with True r(2) x show ?thesis by simp
  next
    case False
    with Cons.IH [OF r(1) Cons.prems(2)] r(2) x show ?thesis by simp
  qed
qed

lemma interpolate_perms_keeps_fixed:
  "interpolate_perms t proj_grads pm = Inr pm' \<Longrightarrow> fixed_perm p \<Longrightarrow> map_of pm' p = map_of pm p"
proof (induction pm arbitrary: pm')
  case Nil
  then show ?case by simp
next
  case (Cons x pm)
  obtain q M where x: "x = (q, M)" by (cases x)
  from Cons.prems(1) x obtain M' r G where
    r: "interpolate_perms t proj_grads pm = Inr r" "pm' = (q, M') # r"
      "(if fixed_perm q then Inr M else interp t M G) = Inr M'"
    by (auto simp: thn_eq_Inr split: option.splits)
  show ?case
  proof (cases "p = q")
    case True
    with r(3) Cons.prems(2) have "M' = M" by simp
    with True r(2) x show ?thesis by simp
  next
    case False
    with Cons.IH [OF r(1) Cons.prems(2)] r(2) x show ?thesis by simp
  qed
qed

text \<open>
  Claim C1 holds in its first half (the two lemmas above: neither the interpolation of the
  line search nor the update changes \<open>P_final\<close> or \<open>P_4\<close>), and the code misses the second:
  \<open>initialize_perm_matrices\<close> treats \<open>P_final\<close> like every other variable, so under
  \<open>random\<close> it starts from a random matrix and keeps it. In the run below it is never the
  identity, and the driver hardens it to the exchange of the two output units.
\<close>

theorem random_init_P_final_not_identity:
  "frank_wolfe_weight_matching_trial example_ext 1 [(''linear.weight'', T2 [[1, 0], [0, 1]])]
        [(''linear.weight'', T2 [[1, 0], [0, 1]])] [(''P_final'', 2)] ''random'' output_only_spec_again 1
      = Inr ([(''P_final'', [[1 / 4, 1 / 2], [3 / 4, 0]])],
             [[(''P_final'', [[1 / 4, 1 / 2], [3 / 4, 0]])], [(''P_final'', [[1 / 4, 1 / 2], [3 / 4, 0]])]],
             1 / 4)
   \<and> [[1 / 4, 1 / 2], [3 / 4, 0]] \<noteq> eye 2
   \<and> fst (frank_wolfe_weight_matching example_ext [1] output_only_spec
       [(''linear.weight'', T2 [[1, 0], [0, 1]])] [(''linear.weight'', T2 [[1, 0], [0, 1]])] ''random'' 1 False)
     = Inr ([(''P_final'', [1, 0])], None)"
  by (simp add: fw_eval output_only_spec_again_def output_only_spec_def enumerate_eq_zip replicate_numeral)

subsection \<open>Patience and the end of a trial\<close>

lemma fw_body_patience:
  assumes "fw_body E pa pb sizes layers s = Inr s'"
  shows "\<exists>obj. get_global_obj_layerwise pa pb (perm_matrices s') layers = Inr obj
         \<and> new_obj s' = Some obj
         \<and> perm_matrices_history s' = perm_matrices_history s
         \<and> (if obj - old_obj s < 1 / 10 ^ 6
             then patience_steps s' = patience_steps s + 1 \<and> old_obj s' = old_obj s
             else patience_steps s' = 0 \<and> old_obj s' = obj)"
proof -
  from assms obtain pm obj where
    o: "get_global_obj_layerwise pa pb pm layers = Inr obj" and
    s': "s' = (if obj - old_obj s < 1 / 10 ^ 6
          then s\<lparr>perm_matrices := pm, patience_steps := patience_steps s + 1, new_obj := Some obj\<rparr>
          else s\<lparr>perm_matrices := pm, patience_steps := 0, old_obj := obj, new_obj := Some obj\<rparr>)"
    unfolding fw_body_def Let_def thn_eq_Inr by blast
  show ?thesis
  proof (cases "obj - old_obj s < 1 / 10 ^ 6")
    case True
    with s' have "perm_matrices s' = pm" "new_obj s' = Some obj"
      "perm_matrices_history s' = perm_matrices_history s"
      "patience_steps s' = patience_steps s + 1" "old_obj s' = old_obj s" by simp_all
    with True o show ?thesis by (intro exI [of _ obj]) simp
  next
    case False
    with s' have "perm_matrices s' = pm" "new_obj s' = Some obj"
      "perm_matrices_history s' = perm_matrices_history s"
      "patience_steps s' = 0" "old_obj s' = obj" by simp_all
    with False o show ?thesis by (intro exI [of _ obj]) simp
  qed
qed

lemma fw_body_patience_le:
  assumes "fw_body E pa pb sizes layers s = Inr s'"
  shows "patience_steps s' \<le> patience_steps s + 1"
  using fw_body_patience [OF assms] by (auto split: if_splits)

lemma fw_loop_passes:
  assumes "patience_steps s0 < 15"
  shows "(\<forall>r. fw_loop k E pa pb sizes layers s0 = Inr r \<longrightarrow>
            (\<exists>j s. j \<le> k \<and> (0 < k \<longrightarrow> 0 < j) \<and> fw_passes j E pa pb sizes layers s0 = Inr s
               \<and> r = (if patience_steps s = 15
                      then s\<lparr>perm_matrices_history := butlast (perm_matrices_history s)\<rparr> else s)
               \<and> (\<forall>i<j. \<forall>si. fw_passes i E pa pb sizes layers s0 = Inr si \<longrightarrow> patience_steps si < 15)
               \<and> patience_steps s \<le> 15
               \<and> (j < k \<longrightarrow> patience_steps s = 15)))
       \<and> (\<forall>e. fw_loop k E pa pb sizes layers s0 = Inl e \<longrightarrow>
            (\<exists>j. 0 < j \<and> j \<le> k \<and> fw_passes j E pa pb sizes layers s0 = Inl e))"
  using assms
proof (induction k arbitrary: s0)
  case 0
  then show ?case by auto
next
  case (Suc k)
  show ?case
  proof (cases "fw_body E pa pb sizes layers s0")
    case (Inl e)
    then have "fw_loop (Suc k) E pa pb sizes layers s0 = Inl e"
      and "fw_passes (Suc 0) E pa pb sizes layers s0 = Inl e"
      by (simp_all add: fw_pass_def)
    then show ?thesis by auto
  next
    case (Inr s')
    let ?a = "s'\<lparr>perm_matrices_history := perm_matrices_history s' @ [perm_matrices s']\<rparr>"
    have pass: "fw_pass E pa pb sizes layers s0 = Inr ?a"
      using Inr by (simp add: fw_pass_def)
    have le: "patience_steps s' \<le> 15"
      using fw_body_patience_le [OF Inr] Suc.prems by simp
    show ?thesis
    proof (cases "patience_steps s' \<ge> 15")
      case True
      with le have eq: "patience_steps s' = 15" by simp
      have loop: "fw_loop (Suc k) E pa pb sizes layers s0 = Inr s'"
        using Inr True by simp
      have p1: "fw_passes (Suc 0) E pa pb sizes layers s0 = Inr ?a"
        using pass by simp
      have r: "s' = (if patience_steps ?a = 15
                      then ?a\<lparr>perm_matrices_history := butlast (perm_matrices_history ?a)\<rparr> else ?a)"
        using eq by simp
      have i: "\<forall>i<Suc 0. \<forall>si. fw_passes i E pa pb sizes layers s0 = Inr si \<longrightarrow> patience_steps si < 15"
        using Suc.prems by simp
      from loop p1 r i eq show ?thesis
        by (intro conjI allI impI) (rule exI [of _ "Suc 0"], rule exI [of _ ?a], simp_all)
    next
      case False
      then have lt: "patience_steps ?a < 15" by simp
      have loop: "fw_loop (Suc k) E pa pb sizes layers s0 = fw_loop k E pa pb sizes layers ?a"
        using Inr False by simp
      have ps: "\<And>j. fw_passes (Suc j) E pa pb sizes layers s0 = fw_passes j E pa pb sizes layers ?a"
        using pass by simp
      note IH = Suc.IH [OF lt]
      show ?thesis
      proof (intro conjI allI impI)
        fix r assume "fw_loop (Suc k) E pa pb sizes layers s0 = Inr r"
        with loop IH obtain j s where
          j: "j \<le> k" "0 < k \<longrightarrow> 0 < j" "fw_passes j E pa pb sizes layers ?a = Inr s"
            "r = (if patience_steps s = 15
                      then s\<lparr>perm_matrices_history := butlast (perm_matrices_history s)\<rparr> else s)"
            "\<forall>i<j. \<forall>si. fw_passes i E pa pb sizes layers ?a = Inr si \<longrightarrow> patience_steps si < 15"
            "patience_steps s \<le> 15" "j < k \<longrightarrow> patience_steps s = 15"
          by auto
        have i: "\<forall>i<Suc j. \<forall>si. fw_passes i E pa pb sizes layers s0 = Inr si \<longrightarrow> patience_steps si < 15"
        proof (intro allI impI)
          fix i si assume i: "i < Suc j" "fw_passes i E pa pb sizes layers s0 = Inr si"
          show "patience_steps si < 15"
          proof (cases i)
            case 0
            with i(2) Suc.prems show ?thesis by simp
          next
            case (Suc i')
            with i ps j(5) show ?thesis by auto
          qed
        qed
        from j i ps show "\<exists>j s. j \<le> Suc k \<and> (0 < Suc k \<longrightarrow> 0 < j)
               \<and> fw_passes j E pa pb sizes layers s0 = Inr s
               \<and> r = (if patience_steps s = 15
                      then s\<lparr>perm_matrices_history := butlast (perm_matrices_history s)\<rparr> else s)
               \<and> (\<forall>i<j. \<forall>si. fw_passes i E pa pb sizes layers s0 = Inr si \<longrightarrow> patience_steps si < 15)
               \<and> patience_steps s \<le> 15
               \<and> (j < Suc k \<longrightarrow> patience_steps s = 15)"
          by (intro exI [of _ "Suc j"] exI [of _ s]) simp
      next
        fix e assume "fw_loop (Suc k) E pa pb sizes layers s0 = Inl e"
        with loop IH obtain j where "0 < j" "j \<le> k" "fw_passes j E pa pb sizes layers ?a = Inl e"
          by auto
        with ps show "\<exists>j. 0 < j \<and> j \<le> Suc k \<and> fw_passes j E pa pb sizes layers s0 = Inl e"
          by (intro exI [of _ "Suc j"]) simp
      qed
    qed
  qed
qed

lemma thn_assoc: "thn (thn m f) g = thn m (\<lambda>x. thn (f x) g)"
  by (cases m) simp_all

lemma thn_Inr_right: "thn m Inr = m"
  by (cases m) simp_all

lemma fw_passes_snoc:
  "fw_passes (Suc j) E pa pb sizes L s = thn (fw_passes j E pa pb sizes L s) (fw_pass E pa pb sizes L)"
proof (induction j arbitrary: s)
  case 0
  have "fw_passes 0 E pa pb sizes L = Inr" by (rule ext) simp
  then show ?case by (simp add: thn_Inr_right)
next
  case (Suc j)
  have e: "fw_passes (Suc j) E pa pb sizes L
      = (\<lambda>x. thn (fw_passes j E pa pb sizes L x) (fw_pass E pa pb sizes L))"
    by (rule ext) (rule Suc.IH)
  have "fw_passes (Suc (Suc j)) E pa pb sizes L s
      = thn (fw_pass E pa pb sizes L s) (fw_passes (Suc j) E pa pb sizes L)"
    by (simp only: fw_passes.simps)
  also have "\<dots> = thn (thn (fw_pass E pa pb sizes L s) (fw_passes j E pa pb sizes L))
      (fw_pass E pa pb sizes L)"
    by (simp only: e thn_assoc)
  also have "\<dots> = thn (fw_passes (Suc j) E pa pb sizes L s) (fw_pass E pa pb sizes L)"
    by (simp only: fw_passes.simps)
  finally show ?case .
qed

lemma fw_passes_Suc_Inr:
  assumes "fw_passes (Suc j) E pa pb sizes L s0 = Inr s"
  obtains sj s' where "fw_passes j E pa pb sizes L s0 = Inr sj"
    and "fw_body E pa pb sizes L sj = Inr s'"
    and "s = s'\<lparr>perm_matrices_history := perm_matrices_history s' @ [perm_matrices s']\<rparr>"
  using assms unfolding fw_passes_snoc by (auto simp: fw_pass_def thn_eq_Inr)

lemma fw_passes_new_obj:
  assumes "fw_passes (Suc j) E pa pb sizes L s0 = Inr s"
  shows "\<exists>obj. new_obj s = Some obj"
proof -
  from assms obtain sj s' where "fw_body E pa pb sizes L sj = Inr s'"
    "s = s'\<lparr>perm_matrices_history := perm_matrices_history s' @ [perm_matrices s']\<rparr>"
    by (rule fw_passes_Suc_Inr)
  with fw_body_patience [of E pa pb sizes L sj s'] show ?thesis by auto
qed

lemma fw_passes_history_length:
  "fw_passes j E pa pb sizes L s0 = Inr s
     \<Longrightarrow> length (perm_matrices_history s) = length (perm_matrices_history s0) + j"
proof (induction j arbitrary: s)
  case 0
  then show ?case by simp
next
  case (Suc j)
  from Suc.prems obtain sj s' where
    a: "fw_passes j E pa pb sizes L s0 = Inr sj" "fw_body E pa pb sizes L sj = Inr s'"
      "s = s'\<lparr>perm_matrices_history := perm_matrices_history s' @ [perm_matrices s']\<rparr>"
    by (rule fw_passes_Suc_Inr)
  from fw_body_patience [OF a(2)] have "perm_matrices_history s' = perm_matrices_history sj" by auto
  with Suc.IH [OF a(1)] a(3) show ?case by simp
qed

text \<open>
  What \<open>old_obj\<close> holds after \<open>j\<close> passes of a trial: the counter tells how many passes
  ago it was reset, and \<open>old_obj\<close> is the objective computed by that pass.
\<close>

lemma fw_passes_recorded:
  assumes "fw_passes j E pa pb sizes L s0 = Inr s" and "patience_steps s0 = 0"
  shows "patience_steps s \<le> j
     \<and> (if patience_steps s = j then old_obj s = old_obj s0
         else \<exists>sr. fw_passes (j - patience_steps s) E pa pb sizes L s0 = Inr sr
                \<and> patience_steps sr = 0 \<and> new_obj sr = Some (old_obj s))"
  using assms(1)
proof (induction j arbitrary: s)
  case 0
  with assms(2) show ?case by simp
next
  case (Suc j)
  from Suc.prems obtain sj s' where
    a: "fw_passes j E pa pb sizes L s0 = Inr sj" "fw_body E pa pb sizes L sj = Inr s'"
      "s = s'\<lparr>perm_matrices_history := perm_matrices_history s' @ [perm_matrices s']\<rparr>"
    by (rule fw_passes_Suc_Inr)
  from fw_body_patience [OF a(2)] obtain obj where
    o: "new_obj s' = Some obj"
      "if obj - old_obj sj < 1 / 10 ^ 6
       then patience_steps s' = patience_steps sj + 1 \<and> old_obj s' = old_obj sj
       else patience_steps s' = 0 \<and> old_obj s' = obj"
    by blast
  note IH = Suc.IH [OF a(1)]
  show ?case
  proof (cases "obj - old_obj sj < 1 / 10 ^ 6")
    case True
    with o a(3) have p: "patience_steps s = Suc (patience_steps sj)" "old_obj s = old_obj sj"
      by simp_all
    show ?thesis
    proof (cases "patience_steps sj = j")
      case True
      with p IH show ?thesis by simp
    next
      case False
      with IH obtain sr where "patience_steps sj \<le> j"
        "fw_passes (j - patience_steps sj) E pa pb sizes L s0 = Inr sr"
        "patience_steps sr = 0" "new_obj sr = Some (old_obj sj)"
        by auto
      with p False show ?thesis by auto
    qed
  next
    case False
    with o a(3) have p: "patience_steps s = 0" "old_obj s = obj" "new_obj s = Some obj"
      by simp_all
    with Suc.prems show ?thesis by auto
  qed
qed

text \<open>
  Claim C5, as stated, fails: the new objective is not compared with the objective of the
  previous pass but with \<open>old_obj\<close>, the objective of the latest pass that reset the
  counter. In the run below, on two layers whose three permutations are unlocked one after
  the other, the first pass reaches the objective \<open>9.9999e-4\<close> and records it. The second
  gains about \<open>8.1e-7\<close> and the counter goes to 1. The third gains about \<open>8e-7\<close> over the
  second, less than \<open>1e-6\<close>, and yet the counter is reset to 0 and the objective
  recorded: it exceeds the objective of the first pass by more than \<open>1e-6\<close>.
\<close>

theorem patience_counts_against_recorded_objective:
  "map_sum id (\<lambda>s. (new_obj s, patience_steps s, old_obj s))
     (fw_passes 1 example_ext
        [(''w1'', T2 [[1, 0], [0, 0]]), (''w2'', T2 [[1, 0], [0, 0]])]
        [(''w1'', T2 [[0, 1 / 1000], [- (1 / 1000000), 1 / 1000 + 8 / 10000000]]),
         (''w2'', T2 [[0, 0], [- (1 / 1000000), 8 / 10000000]])]
        [(''P_0'', 2), (''P_1'', 2), (''P_2'', 2)]
        [(''w1'', [Some ''P_1'', Some ''P_0'']), (''w2'', [Some ''P_2'', Some ''P_1''])]
        (fw_init [(''P_0'', [[1, 0], [0, 1]]), (''P_1'', [[1, 0], [0, 1]]), (''P_2'', [[1, 0], [0, 1]])]))
     = Inr (Some (99999 / 100000000), 0, 99999 / 100000000)
   \<and> map_sum id (\<lambda>s. (new_obj s, patience_steps s, old_obj s))
     (fw_passes 2 example_ext
        [(''w1'', T2 [[1, 0], [0, 0]]), (''w2'', T2 [[1, 0], [0, 0]])]
        [(''w1'', T2 [[0, 1 / 1000], [- (1 / 1000000), 1 / 1000 + 8 / 10000000]]),
         (''w2'', T2 [[0, 0], [- (1 / 1000000), 8 / 10000000]])]
        [(''P_0'', 2), (''P_1'', 2), (''P_2'', 2)]
        [(''w1'', [Some ''P_1'', Some ''P_0'']), (''w2'', [Some ''P_2'', Some ''P_1''])]
        (fw_init [(''P_0'', [[1, 0], [0, 1]]), (''P_1'', [[1, 0], [0, 1]]), (''P_2'', [[1, 0], [0, 1]])]))
     = Inr (Some (5003999959499100009 / 5000000000000000000000), 1, 99999 / 100000000)
   \<and> map_sum id (\<lambda>s. (new_obj s, patience_steps s, old_obj s))
     (fw_passes 3 example_ext
        [(''w1'', T2 [[1, 0], [0, 0]]), (''w2'', T2 [[1, 0], [0, 0]])]
        [(''w1'', T2 [[0, 1 / 1000], [- (1 / 1000000), 1 / 1000 + 8 / 10000000]]),
         (''w2'', T2 [[0, 0], [- (1 / 1000000), 8 / 10000000]])]
        [(''P_0'', 2), (''P_1'', 2), (''P_2'', 2)]
        [(''w1'', [Some ''P_1'', Some ''P_0'']), (''w2'', [Some ''P_2'', Some ''P_1''])]
        (fw_init [(''P_0'', [[1, 0], [0, 1]]), (''P_1'', [[1, 0], [0, 1]]), (''P_2'', [[1, 0], [0, 1]])]))
     = Inr (Some (50079999599986950000000000009 / 50000000000000000000000000000000), 0,
            50079999599986950000000000009 / 50000000000000000000000000000000)
   \<and> (50079999599986950000000000009 / 50000000000000000000000000000000 :: real)
        - 5003999959499100009 / 5000000000000000000000 < 1 / 10 ^ 6
   \<and> (1 / 10 ^ 6 :: real)
        \<le> 50079999599986950000000000009 / 50000000000000000000000000000000 - 99999 / 100000000"
  by (simp add: fw_eval fw_pass_def numeral_2_eq_2 numeral_3_eq_3 replicate_numeral)

text \<open>
  Claim C5, amended. In each pass the objective of the updated matrices is computed, and
  if it exceeds \<open>old_obj\<close> by less than \<open>1e-6\<close> the patience counter is incremented,
  otherwise the counter is reset to 0 and that objective is recorded in \<open>old_obj\<close>; so
  once a pass of the trial has reset the counter, \<open>old_obj\<close> is the objective of the
  latest pass that did, which the counter dates. A trial that returns has run \<open>j\<close>
  passes, \<open>1 \<le> j \<le> max_iter\<close>: the counter was below 15 after every earlier pass, it is
  15 if the loop stopped before the cap, and the state after pass \<open>j\<close> is what is returned
  (the matrices of a pass that stops the loop are not appended to the history). A trial
  raises only what one of its passes raises, or for \<open>max_iter = 0\<close> the unbound \<open>new_obj\<close>:
  reaching the cap is not an error.
\<close>

theorem trial_patience_and_stop:
  assumes init: "initialize_perm_matrices E seed sizes m = Inr pm0"
  shows "(\<forall>s s'. fw_body E pa pb sizes (layer_and_axes_to_perm ps) s = Inr s' \<longrightarrow>
            (\<exists>obj. get_global_obj_layerwise pa pb (perm_matrices s') (layer_and_axes_to_perm ps) = Inr obj
               \<and> new_obj s' = Some obj
               \<and> (if obj - old_obj s < 1 / 10 ^ 6
                  then patience_steps s' = patience_steps s + 1 \<and> old_obj s' = old_obj s
                  else patience_steps s' = 0 \<and> old_obj s' = obj)))
    \<and> (\<forall>j s. fw_passes j E pa pb sizes (layer_and_axes_to_perm ps) (fw_init pm0) = Inr s \<longrightarrow>
          patience_steps s \<le> j
          \<and> (patience_steps s < j \<longrightarrow>
               (\<exists>sr. fw_passes (j - patience_steps s) E pa pb sizes (layer_and_axes_to_perm ps) (fw_init pm0)
                        = Inr sr
                  \<and> patience_steps sr = 0 \<and> new_obj sr = Some (old_obj s))))
    \<and> (\<forall>pm hist obj. frank_wolfe_weight_matching_trial E seed pa pb sizes m ps k = Inr (pm, hist, obj) \<longrightarrow>
          (\<exists>j s. 0 < j \<and> j \<le> k
             \<and> fw_passes j E pa pb sizes (layer_and_axes_to_perm ps) (fw_init pm0) = Inr s
             \<and> pm = perm_matrices s \<and> new_obj s = Some obj
             \<and> length (perm_matrices_history s) = Suc j
             \<and> hist = (if patience_steps s = 15 then butlast (perm_matrices_history s)
                       else perm_matrices_history s)
             \<and> (\<forall>i<j. \<forall>si. fw_passes i E pa pb sizes (layer_and_axes_to_perm ps) (fw_init pm0) = Inr si
                    \<longrightarrow> patience_steps si < 15)
             \<and> patience_steps s \<le> 15
             \<and> (j < k \<longrightarrow> patience_steps s = 15)))
    \<and> (\<forall>e. frank_wolfe_weight_matching_trial E seed pa pb sizes m ps k = Inl e \<longrightarrow>
          (k = 0 \<and> e = UnboundLocalError ''new_obj'')
          \<or> (\<exists>j. 0 < j \<and> j \<le> k
                \<and> fw_passes j E pa pb sizes (layer_and_axes_to_perm ps) (fw_init pm0) = Inl e))"
proof (intro conjI allI impI)
  fix s s' assume "fw_body E pa pb sizes (layer_and_axes_to_perm ps) s = Inr s'"
  from fw_body_patience [OF this]
  show "\<exists>obj. get_global_obj_layerwise pa pb (perm_matrices s') (layer_and_axes_to_perm ps) = Inr obj
               \<and> new_obj s' = Some obj
               \<and> (if obj - old_obj s < 1 / 10 ^ 6
                  then patience_steps s' = patience_steps s + 1 \<and> old_obj s' = old_obj s
                  else patience_steps s' = 0 \<and> old_obj s' = obj)"
    by blast
next
  let ?L = "layer_and_axes_to_perm ps"
  fix j s assume p: "fw_passes j E pa pb sizes ?L (fw_init pm0) = Inr s"
  have z: "patience_steps (fw_init pm0) = 0" by (simp add: fw_init_def)
  from fw_passes_recorded [OF p z] show "patience_steps s \<le> j" by simp
next
  let ?L = "layer_and_axes_to_perm ps"
  fix j s assume p: "fw_passes j E pa pb sizes ?L (fw_init pm0) = Inr s"
    and lt: "patience_steps s < j"
  have z: "patience_steps (fw_init pm0) = 0" by (simp add: fw_init_def)
  from fw_passes_recorded [OF p z] lt
  show "\<exists>sr. fw_passes (j - patience_steps s) E pa pb sizes ?L (fw_init pm0) = Inr sr
                  \<and> patience_steps sr = 0 \<and> new_obj sr = Some (old_obj s)"
    by (simp split: if_splits)
next
  let ?L = "layer_and_axes_to_perm ps"
  have p0: "patience_steps (fw_init pm0) < 15" by (simp add: fw_init_def)
  note char = fw_loop_passes [OF p0, of k E pa pb sizes ?L]
  fix pm hist obj
  assume t: "frank_wolfe_weight_matching_trial E seed pa pb sizes m ps k = Inr (pm, hist, obj)"
  with init obtain r where
    r: "fw_loop k E pa pb sizes ?L (fw_init pm0) = Inr r" "new_obj r = Some obj"
      "pm = perm_matrices r" "hist = perm_matrices_history r"
    by (auto simp: frank_wolfe_weight_matching_trial_def thn_eq_Inr split: option.splits)
  from char r(1) obtain j s where
    j: "j \<le> k" "0 < k \<longrightarrow> 0 < j" "fw_passes j E pa pb sizes ?L (fw_init pm0) = Inr s"
      "r = (if patience_steps s = 15
            then s\<lparr>perm_matrices_history := butlast (perm_matrices_history s)\<rparr> else s)"
      "\<forall>i<j. \<forall>si. fw_passes i E pa pb sizes ?L (fw_init pm0) = Inr si \<longrightarrow> patience_steps si < 15"
      "patience_steps s \<le> 15" "j < k \<longrightarrow> patience_steps s = 15"
    by blast
  have "0 < j"
  proof (rule ccontr)
    assume "\<not> 0 < j"
    then have "j = 0" by simp
    with j(3) have "s = fw_init pm0" by simp
    with j(4) have "new_obj r = None" by (simp add: fw_init_def)
    with r(2) show False by simp
  qed
  moreover from j(4) r have "pm = perm_matrices s" "new_obj s = Some obj"
    "hist = (if patience_steps s = 15 then butlast (perm_matrices_history s)
             else perm_matrices_history s)"
    by (auto split: if_splits)
  moreover from fw_passes_history_length [OF j(3)]
  have "length (perm_matrices_history s) = Suc j" by (simp add: fw_init_def)
  ultimately show "\<exists>j s. 0 < j \<and> j \<le> k
             \<and> fw_passes j E pa pb sizes ?L (fw_init pm0) = Inr s
             \<and> pm = perm_matrices s \<and> new_obj s = Some obj
             \<and> length (perm_matrices_history s) = Suc j
             \<and> hist = (if patience_steps s = 15 then butlast (perm_matrices_history s)
                       else perm_matrices_history s)
             \<and> (\<forall>i<j. \<forall>si. fw_passes i E pa pb sizes ?L (fw_init pm0) = Inr si
                    \<longrightarrow> patience_steps si < 15)
             \<and> patience_steps s \<le> 15
             \<and> (j < k \<longrightarrow> patience_steps s = 15)"
    using j by blast
next
  let ?L = "layer_and_axes_to_perm ps"
  have p0: "patience_steps (fw_init pm0) < 15" by (simp add: fw_init_def)
  note char = fw_loop_passes [OF p0, of k E pa pb sizes ?L]
  fix e
  assume t: "frank_wolfe_weight_matching_trial E seed pa pb sizes m ps k = Inl e"
  show "(k = 0 \<and> e = UnboundLocalError ''new_obj'')
          \<or> (\<exists>j. 0 < j \<and> j \<le> k \<and> fw_passes j E pa pb sizes ?L (fw_init pm0) = Inl e)"
  proof (cases "fw_loop k E pa pb sizes ?L (fw_init pm0)")
    case (Inl e')
    with t init have "e' = e" by (simp add: frank_wolfe_weight_matching_trial_def)
    with Inl char show ?thesis by blast
  next
    case (Inr r)
    with t init have n: "new_obj r = None" "e = UnboundLocalError ''new_obj''"
      by (auto simp: frank_wolfe_weight_matching_trial_def split: option.splits)
    from char Inr obtain j s where
      j: "0 < k \<longrightarrow> 0 < j" "fw_passes j E pa pb sizes ?L (fw_init pm0) = Inr s"
        "r = (if patience_steps s = 15
            then s\<lparr>perm_matrices_history := butlast (perm_matrices_history s)\<rparr> else s)"
      by blast
    have "k = 0"
    proof (rule ccontr)
      assume "k \<noteq> 0"
      with j(1) obtain j' where j': "j = Suc j'" by (cases j) auto
      have "\<exists>obj. new_obj s = Some obj"
        using j(2) unfolding j' by (rule fw_passes_new_obj)
      with j(3) n(1) show False by (auto split: if_splits)
    qed
    with n show ?thesis by simp
  qed
qed

lemma fw_loop_numeral:
  "fw_loop (numeral n) E pa pb sizes L s =
     thn (fw_body E pa pb sizes L s) (\<lambda>s'.
     if patience_steps s' \<ge> 15 then Inr s'
     else fw_loop (pred_numeral n) E pa pb sizes L
            (s'\<lparr>perm_matrices_history := perm_matrices_history s' @ [perm_matrices s']\<rparr>))"
  by (simp add: numeral_eq_Suc)

lemma body_stagnant:
  assumes "perm_matrices s = [(''P_0'', [[1]])]"
  shows "fw_body example_ext [(''w'', T2 [[1]])] [(''w'', T2 [[1]])] [(''P_0'', 1)]
           [(''w'', [Some ''P_0'', None])] s
         = Inr (if 1 - old_obj s < 1 / 10 ^ 6
          then s\<lparr>perm_matrices := [(''P_0'', [[1]])], patience_steps := patience_steps s + 1, new_obj := Some 1\<rparr>
          else s\<lparr>perm_matrices := [(''P_0'', [[1]])], patience_steps := 0, old_obj := 1, new_obj := Some 1\<rparr>)"
  using assms by (simp add: fw_eval)

lemma trial_stagnant:
  "frank_wolfe_weight_matching_trial example_ext 0 [(''w'', T2 [[1]])] [(''w'', T2 [[1]])]
      [(''P_0'', 1)] ''identity'' hidden_only_spec 100
    = Inr ([(''P_0'', [[1]])], replicate 16 [(''P_0'', [[1]])], 1)"
  by (simp add: frank_wolfe_weight_matching_trial_def initialize_perm_matrices_def eye_def
      fw_init_def hidden_only_spec_def fw_loop_numeral body_stagnant upt_conv_Cons replicate_numeral
      del: One_nat_def) simp


theorem trial_patience_and_stop_witness:
  "initialize_perm_matrices example_ext 0 [(''P_0'', 1)] ''identity'' = Inr [(''P_0'', [[1]])]
   \<and> frank_wolfe_weight_matching_trial example_ext 0 [(''w'', T2 [[1]])] [(''w'', T2 [[1]])]
        [(''P_0'', 1)] ''identity'' hidden_only_spec 100
      = Inr ([(''P_0'', [[1]])], replicate 16 [(''P_0'', [[1]])], 1)
   \<and> (\<exists>s. fw_passes 16 example_ext [(''w'', T2 [[1]])] [(''w'', T2 [[1]])]
              [(''P_0'', 1)] (layer_and_axes_to_perm hidden_only_spec) (fw_init [(''P_0'', [[1]])]) = Inr s
         \<and> patience_steps s = 15 \<and> new_obj s = Some 1 \<and> perm_matrices s = [(''P_0'', [[1]])]
         \<and> get_global_obj_layerwise [(''w'', T2 [[1]])] [(''w'', T2 [[1]])] (perm_matrices s)
               (layer_and_axes_to_perm hidden_only_spec) = Inr 1
         \<and> butlast (perm_matrices_history s) = replicate 16 [(''P_0'', [[1]])])"
proof -
  have i: "initialize_perm_matrices example_ext 0 [(''P_0'', 1)] ''identity'' = Inr [(''P_0'', [[1]])]"
    by (simp add: initialize_perm_matrices_def eye_def upt_conv_Cons)
  note t = trial_patience_and_stop [OF i, of "[(''w'', T2 [[1]])]" "[(''w'', T2 [[1]])]"
      hidden_only_spec 100]
  from t trial_stagnant obtain j s where
    j: "0 < j" "j \<le> 100"
      "fw_passes j example_ext [(''w'', T2 [[1]])] [(''w'', T2 [[1]])]
              [(''P_0'', 1)] (layer_and_axes_to_perm hidden_only_spec) (fw_init [(''P_0'', [[1]])]) = Inr s"
      "[(''P_0'', [[1]])] = perm_matrices s" "new_obj s = Some 1"
      "length (perm_matrices_history s) = Suc j"
      "replicate 16 [(''P_0'', [[1]])] = (if patience_steps s = 15 then butlast (perm_matrices_history s)
                       else perm_matrices_history s)"
      "j < 100 \<longrightarrow> patience_steps s = 15"
    by blast
  have p: "patience_steps s = 15"
  proof (rule ccontr)
    assume n: "patience_steps s \<noteq> 15"
    with j(7) have "length (perm_matrices_history s) = 16"
      by (metis length_replicate)
    with j(6) have "j < 100" by simp
    with j(8) n show False by simp
  qed
  with j(7) have b: "butlast (perm_matrices_history s) = replicate 16 [(''P_0'', [[1]])]" by simp
  then have "length (butlast (perm_matrices_history s)) = 16" by simp
  with j(6) have j16: "j = 16" by simp
  obtain j' where j': "j = Suc j'" using j(1) by (cases j) auto
  from j(3) obtain sj s' where
    "fw_body example_ext [(''w'', T2 [[1]])] [(''w'', T2 [[1]])]
              [(''P_0'', 1)] (layer_and_axes_to_perm hidden_only_spec) sj = Inr s'"
    "s = s'\<lparr>perm_matrices_history := perm_matrices_history s' @ [perm_matrices s']\<rparr>"
    unfolding j' by (rule fw_passes_Suc_Inr)
  with t j(5) have g: "get_global_obj_layerwise [(''w'', T2 [[1]])] [(''w'', T2 [[1]])] (perm_matrices s)
               (layer_and_axes_to_perm hidden_only_spec) = Inr 1"
    by fastforce
  from i trial_stagnant j(3,4,5) p b g show ?thesis unfolding j16 by auto
qed

end
